theory Spec2Isabelle
  imports Complex_Main
begin

section \<open>Exceptions, messages and Python arithmetic\<close>

text \<open>
  The analyzer of \<^verbatim>\<open>app/video_processor.py\<close> raises one exception class of its own,
  \<^verbatim>\<open>VideoProcessingError\<close>, and meets every other \<^verbatim>\<open>Exception\<close> subclass that the
  libraries raise. A message is kept as its template with the template's arguments, so
  that a message built from \<^verbatim>\<open>str(e)\<close> of another exception still shows which message it
  wraps. Floats are idealised as rationals: NaN, infinities and binary rounding are outside
  the model.
\<close>

datatype message =
    Text string
  | VideoFileNotFound string
  | VideoFileTooLarge rat
  | VideoFileEmpty
  | CannotOpenVideoFile string
  | InvalidFPS rat
  | VideoHasNoFrames
  | InvalidResolution int int
  | VideoTooLong rat
  | FailedToOpenAfterValidation
  | FailedToInitVideoWriter
  | FailedToInitPose
  | PoseInitFailed message
  | OutputNotCreated
  | OutputEmpty
  | ProcessingFailed message
  | AllAttemptsFailed int "message option"
  | DivisionByZero

datatype exn = VideoProcessingError message | OtherException message

text \<open>\<^verbatim>\<open>str(e)\<close>: the message alone, the class is dropped.\<close>

fun str :: "exn \<Rightarrow> message" where
  "str (VideoProcessingError m) = m"
| "str (OtherException m) = m"

text \<open>Python's \<^verbatim>\<open>int(x)\<close> on a float truncates toward zero.\<close>

definition py_int :: "rat \<Rightarrow> int" where
  "py_int x = (if 0 \<le> x then \<lfloor>x\<rfloor> else \<lceil>x\<rceil>)"

text \<open>Python's \<^verbatim>\<open>a / b\<close> raises \<^verbatim>\<open>ZeroDivisionError\<close> on a zero divisor.\<close>

definition truediv :: "rat \<Rightarrow> rat \<Rightarrow> exn + rat" where
  "truediv a b = (if b = 0 then Inl (OtherException DivisionByZero) else Inr (a / b))"

text \<open>The integer nearest to a rational, a tie going to the even neighbour: the rounding
  of both \<^verbatim>\<open>round\<close> and the \<^verbatim>\<open>.2f\<close> format.\<close>

definition round_half_even :: "rat \<Rightarrow> int" where
  "round_half_even y =
     (let f = \<lfloor>y\<rfloor>; d = y - of_int f
      in if d < 1 / 2 then f else if 1 / 2 < d then f + 1
         else if even f then f else f + 1)"

text \<open>Python's \<^verbatim>\<open>round(x, 3)\<close>: to three decimals.\<close>

definition py_round3 :: "rat \<Rightarrow> rat" where
  "py_round3 x = of_int (round_half_even (x * 1000)) / 1000"

text \<open>\<^verbatim>\<open>str(n)\<close> of an integer, in decimal.\<close>

definition digit :: "nat \<Rightarrow> char" where
  "digit d = ''0123456789'' ! (d mod 10)"

fun str_nat :: "nat \<Rightarrow> string" where
  "str_nat n = (if n < 10 then [digit n] else str_nat (n div 10) @ [digit (n mod 10)])"

declare str_nat.simps [simp del]

definition str_int :: "int \<Rightarrow> string" where
  "str_int i = (if i < 0 then CHR ''-'' # str_nat (nat (- i)) else str_nat (nat i))"

text \<open>The format \<^verbatim>\<open>f"{x:.2f}"\<close>: the value rounded to two decimals, written with its
  sign, its integer part, a point and two digits.\<close>

definition format_2f :: "rat \<Rightarrow> string" where
  "format_2f x =
     (let a = nat \<bar>round_half_even (x * 100)\<bar>
      in (if x < 0 then [CHR ''-''] else [])
         @ str_nat (a div 100) @ [CHR ''.'', digit (a mod 100 div 10), digit (a mod 10)])"

section \<open>The data of one job\<close>

record landmark =
  lm_x :: rat
  lm_y :: rat
  lm_z :: rat
  visibility :: rat

text \<open>A decoded picture: which picture of the source it is, and its shape.\<close>

record image =
  src :: nat
  cols :: nat
  rows :: nat

text \<open>\<^verbatim>\<open>frame.size\<close>: the number of array elements (three channels per pixel).\<close>

definition image_size :: "image \<Rightarrow> nat" where
  "image_size f = rows f * cols f * 3"

text \<open>\<^verbatim>\<open>cv2.resize(frame, (width, height))\<close>: the same picture at the given shape.\<close>

definition resize :: "image \<Rightarrow> int \<Rightarrow> int \<Rightarrow> image" where
  "resize f width height = f\<lparr>cols := nat width, rows := nat height\<rparr>"

text \<open>
  What reaches the writer: a picture, the skeleton drawn on it (if any) and the status
  caption put on it (frame number, total, detection status), if any.
\<close>

record out_frame =
  picture :: image
  skeleton :: "landmark list option"
  caption :: "(nat \<times> int \<times> bool) option"

record frame_keypoints =
  kp_frame :: nat
  kp_landmarks :: "landmark list"
  kp_timestamp :: rat

text \<open>What \<^verbatim>\<open>pose.process\<close> does on one frame: it raises, or it returns
  \<^verbatim>\<open>results\<close> whose \<^verbatim>\<open>pose_landmarks\<close> is \<^verbatim>\<open>None\<close> or a landmark list.\<close>

datatype estimation = EstRaises exn | EstReturns "landmark list option"

text \<open>
  One call of \<^verbatim>\<open>cap.read()\<close> and what the libraries do with the frame it returns.
  The flags say which library call raises on this frame; the conversion back to BGR is
  taken to succeed whenever the conversion to RGB did (same shape, same type).
\<close>

record read_ev =
  read_raises :: "exn option"
  success :: bool
  frame :: "image option"
  resize_raises :: bool
  cvt_raises :: bool
  estimate :: estimation
  draw_raises :: bool
  caption_raises :: bool
  write_raises :: bool

text \<open>What \<^verbatim>\<open>cv2.VideoCapture(path)\<close> gives for a file.\<close>

record capture =
  is_opened :: bool
  prop_fps :: rat
  prop_frame_count :: rat
  prop_frame_width :: rat
  prop_frame_height :: rat
  reads :: "read_ev list"

record video_file =
  st_size :: nat
  video :: capture

record metadata =
  md_fps :: rat
  md_frame_count :: int
  md_width :: int
  md_height :: int
  md_duration :: rat
  md_file_size_mb :: rat

section \<open>Validation\<close>

definition MAX_VIDEO_DURATION :: rat where
  "MAX_VIDEO_DURATION = 600"

definition MAX_FILE_SIZE_MB :: rat where
  "MAX_FILE_SIZE_MB = 500"

datatype cap_event = CapOpen | CapGet | CapRead | CapRelease

text \<open>
  \<^verbatim>\<open>_validate_video_file\<close>, with the calls it makes on the capture handle in order.
  The file is \<open>None\<close> when \<^verbatim>\<open>path.exists()\<close> is false.
\<close>

definition validate_video_file ::
  "string \<Rightarrow> video_file option \<Rightarrow> cap_event list \<times> (exn + metadata)" where
  "validate_video_file video_path file =
     (case file of
        None \<Rightarrow> ([], Inl (VideoProcessingError (VideoFileNotFound video_path)))
      | Some f \<Rightarrow>
          let file_size_mb = rat_of_nat (st_size f) / (1024 * 1024) in
          if MAX_FILE_SIZE_MB < file_size_mb
          then ([], Inl (VideoProcessingError (VideoFileTooLarge file_size_mb)))
          else if st_size f = 0
          then ([], Inl (VideoProcessingError VideoFileEmpty))
          else if \<not> is_opened (video f)
          then ([CapOpen, CapRelease],
                Inl (VideoProcessingError (CannotOpenVideoFile video_path)))
          else
            let fps = prop_fps (video f);
                frame_count = py_int (prop_frame_count (video f));
                width = py_int (prop_frame_width (video f));
                height = py_int (prop_frame_height (video f));
                tr = [CapOpen, CapGet, CapGet, CapGet, CapGet, CapRelease]
            in
            if fps \<le> 0 \<or> 240 < fps
            then (tr, Inl (VideoProcessingError (InvalidFPS fps)))
            else if frame_count \<le> 0
            then (tr, Inl (VideoProcessingError VideoHasNoFrames))
            else if width \<le> 0 \<or> height \<le> 0
            then (tr, Inl (VideoProcessingError (InvalidResolution width height)))
            else
              let duration = (if 0 < fps then of_int frame_count / fps else 0) in
              if MAX_VIDEO_DURATION < duration
              then (tr, Inl (VideoProcessingError (VideoTooLong duration)))
              else (tr, Inr \<lparr>md_fps = fps, md_frame_count = frame_count,
                              md_width = width, md_height = height,
                              md_duration = duration,
                              md_file_size_mb = file_size_mb\<rparr>))"

text \<open>
  The conditions of the specification's contract for \<^verbatim>\<open>validate\<close>, in its words: file
  missing, size 0, size over the limit, source unopenable, frame rate out of range, no
  frames, a non-positive dimension, or a computed duration over the limit.
\<close>

definition spec_invalid_input :: "video_file option \<Rightarrow> bool" where
  "spec_invalid_input file =
     (case file of
        None \<Rightarrow> True
      | Some f \<Rightarrow>
          st_size f = 0
          \<or> 500 < rat_of_nat (st_size f) / (1024 * 1024)
          \<or> \<not> is_opened (video f)
          \<or> prop_fps (video f) \<le> 0 \<or> 240 < prop_fps (video f)
          \<or> py_int (prop_frame_count (video f)) \<le> 0
          \<or> py_int (prop_frame_width (video f)) \<le> 0
          \<or> py_int (prop_frame_height (video f)) \<le> 0
          \<or> 600 < of_int (py_int (prop_frame_count (video f))) / prop_fps (video f))"

text \<open>Handles still open after a sequence of calls on the capture.\<close>

fun open_handles :: "cap_event list \<Rightarrow> int" where
  "open_handles [] = 0"
| "open_handles (CapOpen # es) = open_handles es + 1"
| "open_handles (CapRelease # es) = open_handles es - 1"
| "open_handles (e # es) = open_handles es"

definition is_error :: "exn + 'a \<Rightarrow> bool" where
  "is_error r = (case r of Inl (VideoProcessingError m) \<Rightarrow> True | _ \<Rightarrow> False)"

section \<open>Codec negotiation\<close>

text \<open>An output path: everything before the suffix, and the suffix (empty, or from
  its dot on), as \<^verbatim>\<open>Path.suffix\<close> and \<^verbatim>\<open>Path.with_suffix\<close> see it.\<close>

record path =
  stem :: string
  suffix :: string

definition with_suffix :: "path \<Rightarrow> string \<Rightarrow> path" where
  "with_suffix p ext = p\<lparr>suffix := ext\<rparr>"

definition lower_char :: "char \<Rightarrow> char" where
  "lower_char c =
     (if 65 \<le> (of_char c :: nat) \<and> (of_char c :: nat) \<le> 90
      then char_of (of_char c + 32 :: nat) else c)"

definition lower :: "string \<Rightarrow> string" where
  "lower s = map lower_char s"

definition codec_preferences :: "(string \<times> string) list" where
  "codec_preferences =
     [(''mp4v'', ''.mp4''), (''avc1'', ''.mp4''), (''XVID'', ''.avi''), (''MJPG'', ''.avi'')]"

text \<open>
  The loop of \<^verbatim>\<open>_get_output_codec\<close> over the preference list. The host's
  \<^verbatim>\<open>cv2.VideoWriter_fourcc\<close> is a parameter: on a codec name it raises, returns
  \<^verbatim>\<open>None\<close> or returns a code. It is a function of the name, as the library's is.
\<close>

fun try_codecs ::
  "(string \<Rightarrow> exn + int option) \<Rightarrow> string \<Rightarrow> (string \<times> string) list
     \<Rightarrow> (int \<times> string) option" where
  "try_codecs fourcc extension [] = None"
| "try_codecs fourcc extension ((codec, ext) # rest) =
     (case fourcc codec of
        Inl e \<Rightarrow> try_codecs fourcc extension rest
      | Inr None \<Rightarrow> try_codecs fourcc extension rest
      | Inr (Some c) \<Rightarrow> Some (c, if extension = ext then extension else ext))"

definition get_output_codec ::
  "(string \<Rightarrow> exn + int option) \<Rightarrow> path \<Rightarrow> exn + (int option \<times> string)" where
  "get_output_codec fourcc output_path =
     (let extension = lower (suffix output_path) in
      case try_codecs fourcc extension codec_preferences of
        Some (c, final_ext) \<Rightarrow> Inr (Some c, final_ext)
      | None \<Rightarrow>
          (case fourcc ''mp4v'' of
             Inl e \<Rightarrow> Inl e
           | Inr c \<Rightarrow> Inr (c, ''.mp4'')))"

text \<open>A candidate is unavailable on a host when asking for its code raises or gives
  \<^verbatim>\<open>None\<close>.\<close>

definition unavailable :: "(string \<Rightarrow> exn + int option) \<Rightarrow> string \<Rightarrow> bool" where
  "unavailable fourcc codec = (case fourcc codec of Inr (Some c) \<Rightarrow> False | _ \<Rightarrow> True)"

section \<open>The pose detector's scope\<close>

datatype pose_ctor = InitRaises exn | InitNone | InitOk

datatype pose_event = PoseCreated | PoseClosed | PoseCloseRaised

text \<open>
  \<^verbatim>\<open>_get_pose_detector\<close> around a body. The \<^verbatim>\<open>try\<close> of the generator encloses the
  \<^verbatim>\<open>yield\<close>, so an exception of the body is thrown into it and meets the same
  \<^verbatim>\<open>except Exception\<close> as one of the constructor. The \<^verbatim>\<open>finally\<close> calls
  \<^verbatim>\<open>pose.close()\<close> when a detector exists; an exception of \<^verbatim>\<open>close\<close> is logged
  and dropped.
\<close>

definition get_pose_detector ::
  "pose_ctor \<Rightarrow> bool \<Rightarrow> (exn + 'a) \<Rightarrow> pose_event list \<times> (exn + 'a)" where
  "get_pose_detector ctor close_raises body =
     (case ctor of
        InitRaises e \<Rightarrow> ([], Inl (VideoProcessingError (PoseInitFailed (str e))))
      | InitNone \<Rightarrow>
          ([], Inl (VideoProcessingError
                      (PoseInitFailed (str (VideoProcessingError FailedToInitPose)))))
      | InitOk \<Rightarrow>
          ([PoseCreated, if close_raises then PoseCloseRaised else PoseClosed],
           case body of
             Inl e \<Rightarrow> Inl (VideoProcessingError (PoseInitFailed (str e)))
           | Inr v \<Rightarrow> Inr v))"

section \<open>The frame loop\<close>

datatype log_entry =
    InvalidFrameAt nat
  | MediaPipeFailedAt nat message
  | DrawErrorAt nat
  | FrameErrorAt nat

text \<open>The loop's variables, the frames the writer has accepted, and the warnings and
  errors logged.\<close>

record loop_state =
  frame_count :: nat
  detected_frames :: nat
  failed_frames :: nat
  keypoints_data :: "frame_keypoints list"
  written :: "out_frame list"
  logged :: "log_entry list"

definition init_state :: loop_state where
  "init_state = \<lparr>frame_count = 0, detected_frames = 0, failed_frames = 0,
                  keypoints_data = [], written = [], logged = []\<rparr>"

definition plain :: "image \<Rightarrow> out_frame" where
  "plain f = \<lparr>picture = f, skeleton = None, caption = None\<rparr>"

text \<open>The branch \<^verbatim>\<open>frame is None or frame.size == 0\<close>: count, do not write, go on.\<close>

definition invalid_frame :: "loop_state \<Rightarrow> loop_state" where
  "invalid_frame s =
     s\<lparr>failed_frames := failed_frames s + 1,
       logged := logged s @ [InvalidFrameAt (frame_count s)]\<rparr>"

text \<open>The outer \<^verbatim>\<open>except Exception\<close> of the loop body: count a failure, try to write
  the frame as it stands, count the frame.\<close>

definition frame_error :: "read_ev \<Rightarrow> out_frame \<Rightarrow> loop_state \<Rightarrow> loop_state" where
  "frame_error e fr s =
     s\<lparr>frame_count := frame_count s + 1,
       failed_frames := failed_frames s + 1,
       written := (if write_raises e then written s else written s @ [fr]),
       logged := logged s @ [FrameErrorAt (frame_count s)]\<rparr>"

text \<open>\<^verbatim>\<open>out.write(frame); frame_count += 1\<close> on the two paths that write inside the
  \<^verbatim>\<open>try\<close>: a write that raises lands in the outer handler.\<close>

definition write_frame :: "read_ev \<Rightarrow> out_frame \<Rightarrow> loop_state \<Rightarrow> loop_state" where
  "write_frame e fr s =
     (if write_raises e then frame_error e fr s
      else s\<lparr>frame_count := frame_count s + 1, written := written s @ [fr]\<rparr>)"

text \<open>The block under \<^verbatim>\<open>if results.pose_landmarks is not None\<close>: count the detection,
  then draw, extract and append inside one \<^verbatim>\<open>try\<close>. The timestamp's division raises
  on a zero frame rate, after the drawing.\<close>

definition detected :: 
  "rat \<Rightarrow> read_ev \<Rightarrow> landmark list \<Rightarrow> image \<Rightarrow> loop_state \<Rightarrow> out_frame \<times> loop_state" where
  "detected fps e lms f s =
     (let s1 = s\<lparr>detected_frames := detected_frames s + 1\<rparr> in
      if draw_raises e
      then (plain f, s1\<lparr>logged := logged s1 @ [DrawErrorAt (frame_count s1)]\<rparr>)
      else
        let fr = (plain f)\<lparr>skeleton := Some lms\<rparr>;
            landmarks = map (\<lambda>l. \<lparr>lm_x = lm_x l, lm_y = lm_y l, lm_z = lm_z l,
                                   visibility = visibility l\<rparr>) lms
        in
        case truediv (of_nat (frame_count s1)) fps of
          Inl x \<Rightarrow> (fr, s1\<lparr>logged := logged s1 @ [DrawErrorAt (frame_count s1)]\<rparr>)
        | Inr t \<Rightarrow>
            (fr, s1\<lparr>keypoints_data := keypoints_data s1 @
                       [\<lparr>kp_frame = frame_count s1, kp_landmarks = landmarks,
                         kp_timestamp = t\<rparr>]\<rparr>))"

text \<open>The body of the \<^verbatim>\<open>while\<close> loop after a successful read.\<close>

definition process_frame ::
  "int \<Rightarrow> int \<Rightarrow> rat \<Rightarrow> int \<Rightarrow> read_ev \<Rightarrow> loop_state \<Rightarrow> loop_state" where
  "process_frame width height fps nframes e s =
     (case frame e of
        None \<Rightarrow> invalid_frame s
      | Some f \<Rightarrow>
          if image_size f = 0 then invalid_frame s
          else
            let mismatch = (int (cols f) \<noteq> width \<or> int (rows f) \<noteq> height) in
            if mismatch \<and> resize_raises e then frame_error e (plain f) s
            else
              let f1 = (if mismatch then resize f width height else f) in
              if cvt_raises e then frame_error e (plain f1) s
              else
                (case estimate e of
                   EstRaises x \<Rightarrow>
                     write_frame e (plain f1)
                       (s\<lparr>failed_frames := failed_frames s + 1,
                          logged := logged s @ [MediaPipeFailedAt (frame_count s) (str x)]\<rparr>)
                 | EstReturns res \<Rightarrow>
                     let (fr, s2) = (case res of
                                       None \<Rightarrow> (plain f1, s)
                                     | Some lms \<Rightarrow> detected fps e lms f1 s)
                     in
                     if caption_raises e then frame_error e fr s2
                     else
                       write_frame e
                         (fr\<lparr>caption := Some (frame_count s2, nframes, res \<noteq> None)\<rparr>) s2))"

text \<open>
  The \<^verbatim>\<open>while cap.isOpened()\<close> loop over the reads the source gives. A source that has
  no more frames reports a failed read, which is also what the end of the list stands for.
  A read that raises is outside the loop's \<^verbatim>\<open>try\<close>: the exception leaves the loop.
\<close>

fun frame_loop ::
  "int \<Rightarrow> int \<Rightarrow> rat \<Rightarrow> int \<Rightarrow> read_ev list \<Rightarrow> loop_state \<Rightarrow> loop_state \<times> exn option" where
  "frame_loop width height fps nframes [] s = (s, None)"
| "frame_loop width height fps nframes (e # es) s =
     (case read_raises e of
        Some x \<Rightarrow> (s, Some x)
      | None \<Rightarrow>
          if \<not> success e then (s, None)
          else frame_loop width height fps nframes es (process_frame width height fps nframes e s))"

section \<open>Statistics\<close>

text \<open>\<^verbatim>\<open>(n / total_frames * 100) if total_frames > 0 else 0\<close>.\<close>

definition rate :: "nat \<Rightarrow> int \<Rightarrow> exn + rat" where
  "rate n nframes =
     (if 0 < nframes
      then (case truediv (of_nat n) (of_int nframes) of
              Inl x \<Rightarrow> Inl x
            | Inr q \<Rightarrow> Inr (q * 100))
      else Inr 0)"

text \<open>\<^verbatim>\<open>_calculate_average_visibility\<close>: both accumulators run over every landmark of
  every entry.\<close>

definition accumulate_visibility :: "frame_keypoints list \<Rightarrow> rat \<times> nat" where
  "accumulate_visibility kd =
     fold (\<lambda>frame_data acc.
             fold (\<lambda>l (total_visibility, count). (total_visibility + visibility l, count + 1))
                  (kp_landmarks frame_data) acc)
          kd (0, 0)"

definition calculate_average_visibility :: "frame_keypoints list \<Rightarrow> rat option" where
  "calculate_average_visibility kd =
     (if kd = [] then None
      else
        let (total_visibility, count) = accumulate_visibility kd in
        if 0 < count
        then (case truediv total_visibility (of_nat count) of
                Inl x \<Rightarrow> None
              | Inr q \<Rightarrow> Some (py_round3 q))
        else None)"

text \<open>The mean of the specification: the visibilities of every landmark of every
  entry, summed and divided by their number.\<close>

definition all_visibilities :: "frame_keypoints list \<Rightarrow> rat list" where
  "all_visibilities kd = concat (map (\<lambda>fd. map visibility (kp_landmarks fd)) kd)"

definition spec_mean_visibility :: "frame_keypoints list \<Rightarrow> rat" where
  "spec_mean_visibility kd =
     sum_list (all_visibilities kd) / of_nat (length (all_visibilities kd))"

section \<open>One run of the pipeline\<close>

text \<open>Everything outside the analyzer that one call of \<^verbatim>\<open>process_video\<close> meets.\<close>

record world =
  input_file :: "video_file option"
  reopens :: bool
  fourcc_of :: "string \<Rightarrow> exn + int option"
  mkdir_raises :: "exn option"
  writer_opens :: bool
  pose_ctor_of :: pose_ctor
  pose_close_raises :: bool
  output_after :: "nat option"

record result =
  res_success :: bool
  res_input_file :: string
  res_output_file :: path
  res_output_size_mb :: rat
  total_frames :: int
  processed_frames :: nat
  res_detected_frames :: nat
  res_failed_frames :: nat
  detection_rate :: string
  failed_rate :: string
  res_fps :: rat
  res_resolution :: string
  res_duration :: string
  keypoints_count :: nat
  average_visibility :: "rat option"

text \<open>What a call leaves behind: the frames the writer accepted, the calls on the pose
  detector, and the value returned or the exception raised.\<close>

record job =
  sink :: "out_frame list"
  pose_events :: "pose_event list"
  outcome :: "exn + result"

text \<open>The two \<^verbatim>\<open>except\<close> clauses of \<^verbatim>\<open>process_video\<close>.\<close>

fun reraise :: "exn \<Rightarrow> exn" where
  "reraise (VideoProcessingError m) = VideoProcessingError m"
| "reraise (OtherException m) = VideoProcessingError (ProcessingFailed m)"

definition raised :: "exn \<Rightarrow> job" where
  "raised e = \<lparr>sink = [], pose_events = [], outcome = Inl (reraise e)\<rparr>"

text \<open>The statements after the \<^verbatim>\<open>with\<close> block: the rates, the check of the output
  file, the result. The rates and the duration are returned as formatted strings; the
  \<^verbatim>\<open>processing_time\<close> entry, a difference of clock readings, is left out.\<close>

definition finish ::
  "world \<Rightarrow> string \<Rightarrow> path \<Rightarrow> metadata \<Rightarrow> loop_state \<Rightarrow> exn + result" where
  "finish w input_path output_path md s =
     (case rate (detected_frames s) (md_frame_count md) of
        Inl x \<Rightarrow> Inl x
      | Inr dr \<Rightarrow>
          (case rate (failed_frames s) (md_frame_count md) of
             Inl x \<Rightarrow> Inl x
           | Inr fr \<Rightarrow>
               (case output_after w of
                  None \<Rightarrow> Inl (VideoProcessingError OutputNotCreated)
                | Some output_size \<Rightarrow>
                    if output_size = 0 then Inl (VideoProcessingError OutputEmpty)
                    else Inr \<lparr>res_success = True,
                              res_input_file = input_path,
                              res_output_file = output_path,
                              res_output_size_mb = rat_of_nat output_size / (1024 * 1024),
                              total_frames = md_frame_count md,
                              processed_frames = frame_count s,
                              res_detected_frames = detected_frames s,
                              res_failed_frames = failed_frames s,
                              detection_rate = format_2f dr @ [CHR ''%''],
                              failed_rate = format_2f fr @ [CHR ''%''],
                              res_fps = md_fps md,
                              res_resolution =
                                str_int (md_width md) @ [CHR ''x''] @ str_int (md_height md),
                              res_duration = format_2f (md_duration md) @ [CHR ''s''],
                              keypoints_count = length (keypoints_data s),
                              average_visibility =
                                calculate_average_visibility (keypoints_data s)\<rparr>)))"

text \<open>The frame loop as the body of the \<^verbatim>\<open>with\<close> block.\<close>

definition loop_of :: "metadata \<Rightarrow> video_file \<Rightarrow> loop_state \<times> exn option" where
  "loop_of md f =
     frame_loop (md_width md) (md_height md) (md_fps md) (md_frame_count md)
       (reads (video f)) init_state"

definition process_video :: "world \<Rightarrow> string \<Rightarrow> path \<Rightarrow> job" where
  "process_video w input_path output_path =
     (case snd (validate_video_file input_path (input_file w)) of
        Inl e \<Rightarrow> raised e
      | Inr md \<Rightarrow>
          (case input_file w of
             None \<Rightarrow> raised (VideoProcessingError FailedToOpenAfterValidation)
           | Some f \<Rightarrow>
               if \<not> reopens w then raised (VideoProcessingError FailedToOpenAfterValidation)
               else
                 (case get_output_codec (fourcc_of w) output_path of
                    Inl e \<Rightarrow> raised e
                  | Inr (fourcc, codec_ext) \<Rightarrow>
                      let output_path' =
                            (if suffix output_path \<noteq> codec_ext
                             then with_suffix output_path codec_ext else output_path)
                      in
                      (case mkdir_raises w of
                         Some e \<Rightarrow> raised e
                       | None \<Rightarrow>
                           (case fourcc of
                              None \<Rightarrow> raised (OtherException (Text ''fourcc: not an integer''))
                            | Some c \<Rightarrow>
                                if \<not> writer_opens w
                                then raised (VideoProcessingError FailedToInitVideoWriter)
                                else
                                  let (s, x) = loop_of md f;
                                      (evs, r) =
                                        get_pose_detector (pose_ctor_of w) (pose_close_raises w)
                                          (case x of Some e \<Rightarrow> Inl e | None \<Rightarrow> Inr s)
                                  in
                                  \<lparr>sink = (if pose_ctor_of w = InitOk then written s else []),
                                   pose_events = evs,
                                   outcome =
                                     (case r of
                                        Inl e \<Rightarrow> Inl (reraise e)
                                      | Inr s' \<Rightarrow>
                                          (case finish w input_path output_path' md s' of
                                             Inl e \<Rightarrow> Inl (reraise e)
                                           | Inr res \<Rightarrow> Inr res))\<rparr>)))))"

section \<open>Retries\<close>

text \<open>What \<^verbatim>\<open>process_video_with_retry\<close> leaves behind: how often it called the pipeline,
  the durations it slept in order, and the value returned or the exception raised.\<close>

record 'r retry_run =
  calls :: nat
  sleeps :: "nat list"
  final :: "exn + 'r"

text \<open>
  The \<^verbatim>\<open>for attempt in range(max_retries)\<close> loop with \<open>k\<close> iterations to go before
  \<open>attempt\<close>; \<open>run n\<close> is what the pipeline does when it is called for the \<open>n\<close>-th time.
\<close>

fun attempts ::
  "(nat \<Rightarrow> exn + 'r) \<Rightarrow> int \<Rightarrow> nat \<Rightarrow> nat \<Rightarrow> exn option \<Rightarrow> nat list \<Rightarrow> 'r retry_run" where
  "attempts run max_retries 0 attempt last_error slept =
     \<lparr>calls = attempt, sleeps = slept,
      final = Inl (VideoProcessingError
                     (AllAttemptsFailed max_retries (map_option str last_error)))\<rparr>"
| "attempts run max_retries (Suc k) attempt last_error slept =
     (case run attempt of
        Inr r \<Rightarrow> \<lparr>calls = attempt + 1, sleeps = slept, final = Inr r\<rparr>
      | Inl e \<Rightarrow>
          attempts run max_retries k (attempt + 1) (Some e)
            (if int attempt < max_retries - 1 then slept @ [2 ^ attempt] else slept))"

definition retry :: "(nat \<Rightarrow> exn + 'r) \<Rightarrow> int \<Rightarrow> 'r retry_run" where
  "retry run max_retries = attempts run max_retries (nat max_retries) 0 None []"

text \<open>\<open>env n\<close> is the world that the \<open>n\<close>-th call of the pipeline meets.\<close>

definition process_video_with_retry ::
  "(nat \<Rightarrow> world) \<Rightarrow> string \<Rightarrow> path \<Rightarrow> int \<Rightarrow> result retry_run" where
  "process_video_with_retry env input_path output_path max_retries =
     retry (\<lambda>n. outcome (process_video (env n) input_path output_path)) max_retries"

section \<open>Predicates and inputs used by the theorems\<close>

text \<open>A read gives a usable frame when the frame is neither \<^verbatim>\<open>None\<close> nor of size 0.\<close>

definition usable :: "read_ev \<Rightarrow> bool" where
  "usable e = (case frame e of None \<Rightarrow> False | Some f \<Rightarrow> image_size f \<noteq> 0)"

text \<open>A read whose frame gets as far as \<^verbatim>\<open>pose.process\<close>: it is usable, and neither
  the resize (when it is needed) nor the colour conversion raises. The frame as it stands
  at that point has the validated dimensions.\<close>

definition reaches_estimator :: "int \<Rightarrow> int \<Rightarrow> read_ev \<Rightarrow> image \<Rightarrow> bool" where
  "reaches_estimator width height e f =
     (frame e = Some f \<and> image_size f \<noteq> 0
      \<and> \<not> ((int (cols f) \<noteq> width \<or> int (rows f) \<noteq> height) \<and> resize_raises e)
      \<and> \<not> cvt_raises e)"

definition normalised :: "int \<Rightarrow> int \<Rightarrow> image \<Rightarrow> image" where
  "normalised width height f =
     (if int (cols f) \<noteq> width \<or> int (rows f) \<noteq> height then resize f width height else f)"

text \<open>
  A host as OpenCV really is (\<^verbatim>\<open>VideoWriter_fourcc\<close> packs four characters into an
  integer), a small 640 by 480 video at 30 frames per second whose container reports as
  many frames as it yields, and a world in which every resource is available.
\<close>

definition cv2_fourcc :: "string \<Rightarrow> exn + int option" where
  "cv2_fourcc codec =
     (case codec of
        [a, b, c, d] \<Rightarrow>
          Inr (Some (int (of_char a) + 256 * int (of_char b) + 65536 * int (of_char c)
                     + 16777216 * int (of_char d)))
      | _ \<Rightarrow> Inl (OtherException (Text ''VideoWriter_fourcc: four characters expected'')))"

definition still :: "nat \<Rightarrow> read_ev" where
  "still k = \<lparr>read_raises = None, success = True,
              frame = Some \<lparr>src = k, cols = 640, rows = 480\<rparr>,
              resize_raises = False, cvt_raises = False, estimate = EstReturns None,
              draw_raises = False, caption_raises = False, write_raises = False\<rparr>"

definition demo_video :: "read_ev list \<Rightarrow> video_file" where
  "demo_video rs =
     \<lparr>st_size = 4096,
      video = \<lparr>is_opened = True, prop_fps = 30, prop_frame_count = of_nat (length rs),
               prop_frame_width = 640, prop_frame_height = 480, reads = rs\<rparr>\<rparr>"

definition demo_world :: "read_ev list \<Rightarrow> world" where
  "demo_world rs =
     \<lparr>input_file = Some (demo_video rs), reopens = True, fourcc_of = cv2_fourcc,
      mkdir_raises = None, writer_opens = True, pose_ctor_of = InitOk,
      pose_close_raises = False, output_after = Some 8192\<rparr>"

definition demo_out :: path where
  "demo_out = \<lparr>stem = ''out'', suffix = ''.mp4''\<rparr>"

text \<open>Reads on which something goes wrong: the estimator raises, the frame is null, the
  drawing raises after a pose was found, the read itself raises, the read reports failure.\<close>

definition boom :: exn where
  "boom = OtherException (Text ''boom'')"

definition est_fails :: "nat \<Rightarrow> read_ev" where
  "est_fails k = (still k)\<lparr>estimate := EstRaises boom\<rparr>"

definition null_frame :: "nat \<Rightarrow> read_ev" where
  "null_frame k = (still k)\<lparr>frame := None\<rparr>"

definition nose :: landmark where
  "nose = \<lparr>lm_x = 1 / 2, lm_y = 1 / 4, lm_z = - 1 / 10, visibility = 9 / 10\<rparr>"

definition seen :: "rat \<Rightarrow> landmark" where
  "seen v = nose\<lparr>visibility := v\<rparr>"

definition pose_found :: "nat \<Rightarrow> read_ev" where
  "pose_found k = (still k)\<lparr>estimate := EstReturns (Some [nose])\<rparr>"

definition draw_fails :: "nat \<Rightarrow> read_ev" where
  "draw_fails k = (pose_found k)\<lparr>draw_raises := True\<rparr>"

definition read_error :: "nat \<Rightarrow> read_ev" where
  "read_error k = (still k)\<lparr>read_raises := Some boom\<rparr>"

definition failed_read :: "nat \<Rightarrow> read_ev" where
  "failed_read k = (still k)\<lparr>success := False, frame := None\<rparr>"



text \<open>One keypoints entry with three landmarks of visibility 0.1, 0.1 and 0.2.\<close>

definition thirds :: "frame_keypoints list" where
  "thirds = [\<lparr>kp_frame = 0, kp_landmarks = [seen (1 / 10), seen (1 / 10), seen (2 / 10)],
              kp_timestamp = 0\<rparr>]"

text \<open>Worlds that fail: the detector's constructor raises, the input file is missing,
  the input file has no bytes; and sequences of worlds, one per attempt.\<close>

definition pose_ctor_fails :: "read_ev list \<Rightarrow> world" where
  "pose_ctor_fails rs = (demo_world rs)\<lparr>pose_ctor_of := InitRaises boom\<rparr>"

definition missing_world :: world where
  "missing_world = (demo_world [])\<lparr>input_file := None\<rparr>"

definition always_missing :: "nat \<Rightarrow> world" where
  "always_missing n = missing_world"

definition empty_file :: video_file where
  "empty_file = (demo_video [])\<lparr>st_size := 0\<rparr>"

definition empty_world :: world where
  "empty_world = (demo_world [])\<lparr>input_file := Some empty_file\<rparr>"

definition always_empty :: "nat \<Rightarrow> world" where
  "always_empty n = empty_world"

definition flaky_env :: "nat \<Rightarrow> world" where
  "flaky_env n = (if n < 2 then pose_ctor_fails [still 0] else demo_world [still 0])"

definition failing_env :: "nat \<Rightarrow> world" where
  "failing_env n = (if n = 0 then missing_world else pose_ctor_fails [still 0])"

section \<open>Facts about validation\<close>

lemma validate_error_iff:
  "is_error (snd (validate_video_file p vf)) = spec_invalid_input vf"
  by (cases vf)
     (auto simp: validate_video_file_def spec_invalid_input_def is_error_def Let_def
                 MAX_FILE_SIZE_MB_def MAX_VIDEO_DURATION_def)

lemma validate_only_own_errors:
  "snd (validate_video_file p vf) \<noteq> Inl (OtherException m)"
  by (cases vf)
     (auto simp: validate_video_file_def Let_def)

lemma validate_handles:
  "open_handles (fst (validate_video_file p vf)) = 0"
  by (cases vf)
     (auto simp: validate_video_file_def Let_def)

lemma validate_no_read:
  "CapRead \<notin> set (fst (validate_video_file p vf))"
  by (cases vf)
     (auto simp: validate_video_file_def Let_def)

section \<open>Facts about the frame loop\<close>

lemma frame_error_count: "frame_count (frame_error e fr s) = frame_count s + 1"
  by (simp add: frame_error_def)

lemma write_frame_count: "frame_count (write_frame e fr s) = frame_count s + 1"
  by (simp add: write_frame_def frame_error_def)

lemma detected_count: "detected fps e lms f s = (fr, s2) \<Longrightarrow> frame_count s2 = frame_count s"
  by (auto simp: detected_def Let_def split: sum.splits if_splits)

lemma process_frame_count:
  "usable e \<Longrightarrow> frame_count (process_frame W H fps n e s) = frame_count s + 1"
  by (auto simp: usable_def process_frame_def Let_def frame_error_count write_frame_count
        split: option.splits estimation.splits prod.splits dest: detected_count)

lemma process_frame_count_bad:
  "\<not> usable e \<Longrightarrow> frame_count (process_frame W H fps n e s) = frame_count s"
  by (auto simp: usable_def process_frame_def invalid_frame_def split: option.splits)

lemma frame_error_written:
  "\<not> write_raises e \<Longrightarrow> length (written (frame_error e fr s)) = length (written s) + 1"
  by (simp add: frame_error_def)

lemma write_frame_written:
  "\<not> write_raises e \<Longrightarrow> length (written (write_frame e fr s)) = length (written s) + 1"
  by (simp add: write_frame_def)

lemma detected_written: "detected fps e lms f s = (fr, s2) \<Longrightarrow> written s2 = written s"
  by (auto simp: detected_def Let_def split: sum.splits if_splits)

lemma process_frame_written:
  "usable e \<Longrightarrow> \<not> write_raises e \<Longrightarrow>
   length (written (process_frame W H fps n e s)) = length (written s) + 1"
  by (auto simp: usable_def process_frame_def Let_def frame_error_written write_frame_written
        split: option.splits estimation.splits prod.splits dest: detected_written)

lemma frame_loop_count:
  "\<forall>e \<in> set es. success e \<and> usable e \<Longrightarrow> frame_loop W H fps n es s = (s', None) \<Longrightarrow>
   frame_count s' = frame_count s + length es"
proof (induction es arbitrary: s)
  case Nil
  then show ?case by simp
next
  case (Cons e es)
  from Cons.prems have rr: "read_raises e = None"
    by (cases "read_raises e") auto
  with Cons.prems have "frame_loop W H fps n es (process_frame W H fps n e s) = (s', None)"
    by simp
  with Cons.IH Cons.prems(1) have "frame_count s' = frame_count (process_frame W H fps n e s) + length es"
    by simp
  with Cons.prems(1) show ?case
    by (simp add: process_frame_count)
qed

lemma frame_loop_written:
  "\<forall>e \<in> set es. success e \<and> usable e \<and> \<not> write_raises e \<Longrightarrow>
   frame_loop W H fps n es s = (s', None) \<Longrightarrow>
   length (written s') = length (written s) + length es"
proof (induction es arbitrary: s)
  case Nil
  then show ?case by simp
next
  case (Cons e es)
  from Cons.prems have rr: "read_raises e = None"
    by (cases "read_raises e") auto
  with Cons.prems have "frame_loop W H fps n es (process_frame W H fps n e s) = (s', None)"
    by simp
  with Cons.IH Cons.prems(1)
  have "length (written s') = length (written (process_frame W H fps n e s)) + length es"
    by simp
  with Cons.prems(1) show ?case
    by (simp add: process_frame_written)
qed

section \<open>Facts about a completed run\<close>

lemma validate_Inr:
  assumes "snd (validate_video_file ip vf) = Inr md"
  obtains f where "vf = Some f"
    and "md_frame_count md = py_int (prop_frame_count (video f))"
    and "md_fps md = prop_fps (video f)"
    and "0 < md_fps md" and "0 < md_frame_count md"
    and "md_width md = py_int (prop_frame_width (video f))"
    and "md_height md = py_int (prop_frame_height (video f))"
proof (cases vf)
  case None
  with assms show ?thesis by (simp add: validate_video_file_def)
next
  case (Some f)
  with assms have
    "md_frame_count md = py_int (prop_frame_count (video f)) \<and>
     md_fps md = prop_fps (video f) \<and> 0 < md_fps md \<and> 0 < md_frame_count md \<and>
     md_width md = py_int (prop_frame_width (video f)) \<and>
     md_height md = py_int (prop_frame_height (video f))"
    by (auto simp: validate_video_file_def Let_def split: if_splits)
  with Some that show ?thesis by blast
qed

lemma rate_value:
  "rate k nf = Inr (if 0 < nf then rat_of_nat k / rat_of_int nf * 100 else 0)"
  by (simp add: rate_def truediv_def)

lemma finish_Inr:
  assumes "finish w ip op md s = Inr r"
  shows "processed_frames r = frame_count s \<and> total_frames r = md_frame_count md \<and>
         res_detected_frames r = detected_frames s \<and> res_failed_frames r = failed_frames s \<and>
         detection_rate r =
           format_2f (if 0 < md_frame_count md
                      then rat_of_nat (detected_frames s) / rat_of_int (md_frame_count md) * 100
                      else 0) @ [CHR ''%''] \<and>
         failed_rate r =
           format_2f (if 0 < md_frame_count md
                      then rat_of_nat (failed_frames s) / rat_of_int (md_frame_count md) * 100
                      else 0) @ [CHR ''%''] \<and>
         keypoints_count r = length (keypoints_data s) \<and>
         average_visibility r = calculate_average_visibility (keypoints_data s) \<and>
         res_success r"
  using assms
  by (auto simp: finish_def rate_value split: option.splits if_splits)

lemma process_video_Inr:
  assumes "outcome (process_video w ip op) = Inr r"
  obtains md f s op' where "snd (validate_video_file ip (input_file w)) = Inr md"
    and "input_file w = Some f"
    and "loop_of md f = (s, None)"
    and "pose_ctor_of w = InitOk"
    and "sink (process_video w ip op) = written s"
    and "finish w ip op' md s = Inr r"
proof -
  from assms obtain md where md: "snd (validate_video_file ip (input_file w)) = Inr md"
    by (cases "snd (validate_video_file ip (input_file w))")
       (auto simp: process_video_def raised_def)
  from assms md obtain f where f: "input_file w = Some f"
    by (cases "input_file w") (auto simp: process_video_def raised_def)
  obtain s x where l: "loop_of md f = (s, x)"
    by (cases "loop_of md f")
  from assms md f l have
    "x = None \<and> pose_ctor_of w = InitOk \<and> sink (process_video w ip op) = written s \<and>
     (\<exists>op'. finish w ip op' md s = Inr r)"
    by (auto simp: process_video_def raised_def get_pose_detector_def Let_def
             split: sum.splits option.splits prod.splits if_splits pose_ctor.splits)
  with md f l that show ?thesis by blast
qed

text \<open>The definitions to unfold when a concrete run is evaluated.\<close>

lemmas demo_defs = demo_world_def demo_video_def demo_out_def still_def est_fails_def
  null_frame_def boom_def cv2_fourcc_def

lemmas run_defs = process_video_def validate_video_file_def get_output_codec_def
  codec_preferences_def get_pose_detector_def loop_of_def finish_def rate_def truediv_def
  process_frame_def write_frame_def frame_error_def invalid_frame_def detected_def
  init_state_def plain_def resize_def image_size_def py_int_def lower_def lower_char_def
  with_suffix_def raised_def MAX_FILE_SIZE_MB_def MAX_VIDEO_DURATION_def
  calculate_average_visibility_def accumulate_visibility_def

section \<open>Frame-count parity\<close>

text \<open>
  Claim C1, as stated, fails: a read that reports success with a \<^verbatim>\<open>None\<close> frame is
  counted as failed and skipped, so a valid two-frame video whose second frame is null
  completes with one processed frame out of two, and one frame in the output.
\<close>

theorem parity_counterexample:
  "\<not> isl (outcome (process_video (demo_world [still 0, null_frame 1]) ''in.mp4'' demo_out))
   \<and> processed_frames (projr (outcome (process_video (demo_world [still 0, null_frame 1]) ''in.mp4'' demo_out))) = 1
   \<and> total_frames (projr (outcome (process_video (demo_world [still 0, null_frame 1]) ''in.mp4'' demo_out))) = 2
   \<and> length (sink (process_video (demo_world [still 0, null_frame 1]) ''in.mp4'' demo_out)) = 1"
  by (simp add: demo_defs run_defs Let_def)

text \<open>
  Claim C1, amended: when the source yields as many frames as its metadata reports and
  none of them is null or empty, a run of \<^verbatim>\<open>process_video\<close> that completes reports
  \<^verbatim>\<open>processed_frames == total_frames\<close>, whatever the estimator did on each frame
  (raising on every frame included); and when the writer accepts every frame, the output
  holds exactly one frame per frame read.
\<close>

theorem frame_count_parity:
  assumes "outcome (process_video w ip op) = Inr r"
    and "input_file w = Some f"
    and "\<forall>e \<in> set (reads (video f)). success e \<and> usable e"
    and "int (length (reads (video f))) = py_int (prop_frame_count (video f))"
  shows "int (processed_frames r) = total_frames r
         \<and> ((\<forall>e \<in> set (reads (video f)). \<not> write_raises e) \<longrightarrow>
              length (sink (process_video w ip op)) = processed_frames r)"
proof -
  from assms(1) obtain md f' s op' where
    md: "snd (validate_video_file ip (input_file w)) = Inr md"
    and f': "input_file w = Some f'"
    and loop: "loop_of md f' = (s, None)"
    and snk: "sink (process_video w ip op) = written s"
    and fin: "finish w ip op' md s = Inr r"
    by (rule process_video_Inr)
  from f' assms(2) have ff: "f' = f" by simp
  from md assms(2) have tot: "md_frame_count md = py_int (prop_frame_count (video f))"
    by (auto elim: validate_Inr)
  from fin have r: "processed_frames r = frame_count s" "total_frames r = md_frame_count md"
    by (simp_all add: finish_Inr)
  from loop ff have fl:
    "frame_loop (md_width md) (md_height md) (md_fps md) (md_frame_count md)
       (reads (video f)) init_state = (s, None)"
    by (simp add: loop_of_def)
  from frame_loop_count[OF assms(3) fl] have c: "frame_count s = length (reads (video f))"
    by (simp add: init_state_def)
  have "length (written s) = length (reads (video f))"
    if "\<forall>e \<in> set (reads (video f)). \<not> write_raises e"
  proof -
    from that assms(3)
    have "\<forall>e \<in> set (reads (video f)). success e \<and> usable e \<and> \<not> write_raises e"
      by blast
    from frame_loop_written[OF this fl] show ?thesis
      by (simp add: init_state_def)
  qed
  with c r tot assms(4) snk show ?thesis by simp
qed

theorem frame_count_parity_witness:
  "outcome (process_video (demo_world [est_fails 0, est_fails 1]) ''in.mp4'' demo_out)
     = Inr (projr (outcome (process_video (demo_world [est_fails 0, est_fails 1]) ''in.mp4'' demo_out)))
   \<and> total_frames (projr (outcome (process_video (demo_world [est_fails 0, est_fails 1]) ''in.mp4'' demo_out))) = 2
   \<and> processed_frames (projr (outcome (process_video (demo_world [est_fails 0, est_fails 1]) ''in.mp4'' demo_out))) = 2
   \<and> res_failed_frames (projr (outcome (process_video (demo_world [est_fails 0, est_fails 1]) ''in.mp4'' demo_out))) = 2
   \<and> length (sink (process_video (demo_world [est_fails 0, est_fails 1]) ''in.mp4'' demo_out)) = 2"
proof -
  let ?rs = "[est_fails 0, est_fails 1]"
  let ?j = "process_video (demo_world ?rs) ''in.mp4'' demo_out"
  have ok: "outcome ?j = Inr (projr (outcome ?j))"
    by (simp add: demo_defs run_defs Let_def)
  have f: "input_file (demo_world ?rs) = Some (demo_video ?rs)"
    by (simp add: demo_world_def)
  have u: "\<forall>e \<in> set (reads (video (demo_video ?rs))). success e \<and> usable e"
    by (simp add: demo_defs usable_def image_size_def)
  have n: "int (length (reads (video (demo_video ?rs))))
             = py_int (prop_frame_count (video (demo_video ?rs)))"
    by (simp add: demo_defs py_int_def)
  have w: "\<forall>e \<in> set (reads (video (demo_video ?rs))). \<not> write_raises e"
    by (simp add: demo_defs)
  have t: "total_frames (projr (outcome ?j)) = 2"
    by (simp add: demo_defs run_defs Let_def)
  have x: "res_failed_frames (projr (outcome ?j)) = 2"
    by (simp add: demo_defs run_defs Let_def)
  from frame_count_parity[OF ok f u n] w t x ok show ?thesis
    by simp
qed

lemmas demo_defs2 = demo_defs nose_def pose_found_def draw_fails_def

section \<open>Per-frame outcomes\<close>

text \<open>
  Claim C2, as stated, fails for a source that returns no frame at all: a read that
  reports failure in the middle of the video (with \<^verbatim>\<open>None\<close> as its frame) is taken
  for the end of the video. The loop stops there, records no failure, and the frame
  after it is never read: of three frames one is processed, and none is counted as failed.
\<close>

theorem failed_read_counterexample:
  "frame (failed_read 1) = None
   \<and> frame_loop 640 480 30 3 [still 0, failed_read 1, still 2] init_state =
       (\<lparr>frame_count = 1, detected_frames = 0, failed_frames = 0, keypoints_data = [],
         written = [\<lparr>picture = \<lparr>src = 0, cols = 640, rows = 480\<rparr>, skeleton = None,
                      caption = Some (0, 3, False)\<rparr>],
         logged = []\<rparr>, None)
   \<and> \<not> isl (outcome (process_video (demo_world [still 0, failed_read 1, still 2]) ''in.mp4'' demo_out))
   \<and> processed_frames
        (projr (outcome (process_video (demo_world [still 0, failed_read 1, still 2]) ''in.mp4'' demo_out))) = 1
   \<and> res_failed_frames
        (projr (outcome (process_video (demo_world [still 0, failed_read 1, still 2]) ''in.mp4'' demo_out))) = 0"
  by (simp add: failed_read_def demo_defs run_defs Let_def)

text \<open>
  Claim C2, amended: when a read reports success but carries no usable frame (\<^verbatim>\<open>None\<close>
  or of size 0), the loop counts one more failed frame, writes nothing for it, leaves the
  frame counter alone and goes on with the reads that follow, from any state and whatever
  follows, so that such a frame never ends the loop or raises; when a read reports
  failure, the loop ends there as at the end of the video, with the state as it stands
  and no failure recorded.
\<close>

theorem decode_failure_skipped:
  "(read_raises e = None \<and> success e \<and> \<not> usable e \<longrightarrow>
      frame_loop W H fps n (e # es) s =
        frame_loop W H fps n es
          (s\<lparr>failed_frames := failed_frames s + 1,
             logged := logged s @ [InvalidFrameAt (frame_count s)]\<rparr>)
      \<and> written (process_frame W H fps n e s) = written s
      \<and> frame_count (process_frame W H fps n e s) = frame_count s
      \<and> failed_frames (process_frame W H fps n e s) = failed_frames s + 1)
   \<and> (read_raises e = None \<and> \<not> success e \<longrightarrow>
        frame_loop W H fps n (e # es) s = (s, None))"
proof -
  have "process_frame W H fps n e s = invalid_frame s" if "\<not> usable e"
    using that by (auto simp: usable_def process_frame_def split: option.splits)
  then show ?thesis
    by (simp add: invalid_frame_def)
qed

text \<open>Claim C2, amended, at a two-read source whose first frame is null (the second frame
  is still processed and written) and at one whose first read reports failure (nothing
  is processed).\<close>

theorem decode_failure_skipped_witness:
  "frame_loop 640 480 30 2 [null_frame 0, still 1] init_state =
     (\<lparr>frame_count = 1, detected_frames = 0, failed_frames = 1, keypoints_data = [],
       written = [\<lparr>picture = \<lparr>src = 1, cols = 640, rows = 480\<rparr>, skeleton = None,
                    caption = Some (0, 2, False)\<rparr>],
       logged = [InvalidFrameAt 0]\<rparr>, None)
   \<and> frame_loop 640 480 30 2 [failed_read 0, still 1] init_state = (init_state, None)"
proof -
  have a: "read_raises (null_frame 0) = None \<and> success (null_frame 0) \<and> \<not> usable (null_frame 0)"
    by (simp add: demo_defs usable_def)
  have a': "read_raises (failed_read 0) = None \<and> \<not> success (failed_read 0)"
    by (simp add: failed_read_def demo_defs)
  have b: "frame_loop 640 480 30 2 [still 1]
             (init_state\<lparr>failed_frames := failed_frames init_state + 1,
                         logged := logged init_state @ [InvalidFrameAt (frame_count init_state)]\<rparr>)
           = (\<lparr>frame_count = 1, detected_frames = 0, failed_frames = 1, keypoints_data = [],
               written = [\<lparr>picture = \<lparr>src = 1, cols = 640, rows = 480\<rparr>, skeleton = None,
                            caption = Some (0, 2, False)\<rparr>],
               logged = [InvalidFrameAt 0]\<rparr>, None)"
    by (simp add: demo_defs run_defs Let_def)
  from decode_failure_skipped[of "null_frame 0" 640 480 30 2 "[still 1]" init_state] a
  have "frame_loop 640 480 30 2 [null_frame 0, still 1] init_state =
        frame_loop 640 480 30 2 [still 1]
          (init_state\<lparr>failed_frames := failed_frames init_state + 1,
                      logged := logged init_state @ [InvalidFrameAt (frame_count init_state)]\<rparr>)"
    by blast
  then have c: "frame_loop 640 480 30 2 [null_frame 0, still 1] init_state =
     (\<lparr>frame_count = 1, detected_frames = 0, failed_frames = 1, keypoints_data = [],
       written = [\<lparr>picture = \<lparr>src = 1, cols = 640, rows = 480\<rparr>, skeleton = None,
                    caption = Some (0, 2, False)\<rparr>],
       logged = [InvalidFrameAt 0]\<rparr>, None)"
    using b by (rule trans)
  from decode_failure_skipped[of "failed_read 0" 640 480 30 2 "[still 1]" init_state] a'
  have d: "frame_loop 640 480 30 2 [failed_read 0, still 1] init_state = (init_state, None)"
    by blast
  from c d show ?thesis
    by (rule conjI)
qed

lemma landmark_copy:
  "map (\<lambda>l. \<lparr>lm_x = lm_x l, lm_y = lm_y l, lm_z = lm_z l, visibility = visibility l\<rparr>) lms = lms"
  by (induction lms) simp_all

lemma reaches_estimator_step:
  assumes "reaches_estimator W H e f"
  shows "process_frame W H fps n e s =
           (case estimate e of
              EstRaises x \<Rightarrow>
                write_frame e (plain (normalised W H f))
                  (s\<lparr>failed_frames := failed_frames s + 1,
                     logged := logged s @ [MediaPipeFailedAt (frame_count s) (str x)]\<rparr>)
            | EstReturns res \<Rightarrow>
                let (fr, s2) = (case res of
                                  None \<Rightarrow> (plain (normalised W H f), s)
                                | Some lms \<Rightarrow> detected fps e lms (normalised W H f) s)
                in
                if caption_raises e then frame_error e fr s2
                else write_frame e (fr\<lparr>caption := Some (frame_count s2, n, res \<noteq> None)\<rparr>) s2)"
proof (cases "int (cols f) \<noteq> W \<or> int (rows f) \<noteq> H")
  case True
  with assms have "frame e = Some f" "image_size f \<noteq> 0" "\<not> cvt_raises e" "\<not> resize_raises e"
    by (auto simp: reaches_estimator_def)
  moreover from True have nm: "normalised W H f = resize f W H"
    by (simp add: normalised_def)
  ultimately show ?thesis
    unfolding nm using True by (simp add: process_frame_def Let_def)
next
  case False
  with assms have "frame e = Some f" "image_size f \<noteq> 0" "\<not> cvt_raises e"
    by (auto simp: reaches_estimator_def)
  moreover from False have nm: "normalised W H f = f"
    by (simp add: normalised_def)
  ultimately show ?thesis
    unfolding nm using False by (simp add: process_frame_def Let_def)
qed

text \<open>
  Claim C6: when \<^verbatim>\<open>pose.process\<close> raises on a frame that reached it, and the writer
  accepts the frame, the loop counts one more failed frame, writes the frame as decoded
  (brought to the validated dimensions if they differed, and identical to the decoded
  frame otherwise) with neither skeleton nor caption, counts the frame as processed, and
  goes on with the next read.
\<close>

theorem estimation_failure_passthrough:
  assumes "reaches_estimator W H e f" and "estimate e = EstRaises x" and "\<not> write_raises e"
  shows "process_frame W H fps n e s =
           s\<lparr>frame_count := frame_count s + 1,
             failed_frames := failed_frames s + 1,
             written := written s @
               [\<lparr>picture = normalised W H f, skeleton = None, caption = None\<rparr>],
             logged := logged s @ [MediaPipeFailedAt (frame_count s) (str x)]\<rparr>
         \<and> (int (cols f) = W \<and> int (rows f) = H \<longrightarrow> normalised W H f = f)
         \<and> (read_raises e = None \<and> success e \<longrightarrow>
              frame_loop W H fps n (e # es) s =
                frame_loop W H fps n es (process_frame W H fps n e s))"
  using assms
  by (simp add: reaches_estimator_step write_frame_def plain_def normalised_def)

text \<open>Claim C6 at a two-read source whose estimator raises on the first frame.\<close>

theorem estimation_failure_passthrough_witness:
  "frame_loop 640 480 30 2 [est_fails 0, still 1] init_state =
     (\<lparr>frame_count = 2, detected_frames = 0, failed_frames = 1, keypoints_data = [],
       written = [\<lparr>picture = \<lparr>src = 0, cols = 640, rows = 480\<rparr>, skeleton = None,
                    caption = None\<rparr>,
                  \<lparr>picture = \<lparr>src = 1, cols = 640, rows = 480\<rparr>, skeleton = None,
                    caption = Some (1, 2, False)\<rparr>],
       logged = [MediaPipeFailedAt 0 (Text ''boom'')]\<rparr>, None)"
proof -
  let ?f = "\<lparr>src = 0, cols = 640, rows = 480\<rparr>"
  have a: "reaches_estimator 640 480 (est_fails 0) ?f"
    by (simp add: demo_defs reaches_estimator_def image_size_def)
  have b: "estimate (est_fails 0) = EstRaises boom" "\<not> write_raises (est_fails 0)"
    by (simp_all add: demo_defs)
  have c: "read_raises (est_fails 0) = None \<and> success (est_fails 0)"
    by (simp add: demo_defs)
  note t = estimation_failure_passthrough[OF a b, of 30 2 init_state "[still 1]"]
  from t have step: "process_frame 640 480 30 2 (est_fails 0) init_state =
      init_state\<lparr>frame_count := frame_count init_state + 1,
        failed_frames := failed_frames init_state + 1,
        written := written init_state @
           [\<lparr>picture = normalised 640 480 ?f, skeleton = None, caption = None\<rparr>],
        logged := logged init_state @ [MediaPipeFailedAt (frame_count init_state) (str boom)]\<rparr>"
    by (rule conjunct1)
  from t c have "frame_loop 640 480 30 2 [est_fails 0, still 1] init_state =
      frame_loop 640 480 30 2 [still 1] (process_frame 640 480 30 2 (est_fails 0) init_state)"
    by blast
  also have "\<dots> = frame_loop 640 480 30 2 [still 1]
      (init_state\<lparr>frame_count := frame_count init_state + 1,
        failed_frames := failed_frames init_state + 1,
        written := written init_state @
           [\<lparr>picture = normalised 640 480 ?f, skeleton = None, caption = None\<rparr>],
        logged := logged init_state @ [MediaPipeFailedAt (frame_count init_state) (str boom)]\<rparr>)"
    by (simp only: step)
  also have "\<dots> = (\<lparr>frame_count = 2, detected_frames = 0, failed_frames = 1, keypoints_data = [],
       written = [\<lparr>picture = \<lparr>src = 0, cols = 640, rows = 480\<rparr>, skeleton = None,
                    caption = None\<rparr>,
                  \<lparr>picture = \<lparr>src = 1, cols = 640, rows = 480\<rparr>, skeleton = None,
                    caption = Some (1, 2, False)\<rparr>],
       logged = [MediaPipeFailedAt 0 (Text ''boom'')]\<rparr>, None)"
    by (simp add: demo_defs run_defs normalised_def Let_def)
  finally show ?thesis .
qed

lemma detected_drawn:
  assumes "\<not> draw_raises e" and "fps \<noteq> 0"
  shows "detected fps e lms f s =
           ((plain f)\<lparr>skeleton := Some lms\<rparr>,
            s\<lparr>detected_frames := detected_frames s + 1,
              keypoints_data := keypoints_data s @
                [\<lparr>kp_frame = frame_count s, kp_landmarks = lms,
                  kp_timestamp = rat_of_nat (frame_count s) / fps\<rparr>]\<rparr>)"
  using assms by (simp add: detected_def truediv_def Let_def landmark_copy)

lemma detected_not_drawn:
  assumes "draw_raises e"
  shows "detected fps e lms f s =
           (plain f,
            s\<lparr>detected_frames := detected_frames s + 1,
              logged := logged s @ [DrawErrorAt (frame_count s)]\<rparr>)"
  using assms by (simp add: detected_def Let_def)

lemma after_detection:
  assumes "reaches_estimator W H e f" and "estimate e = EstReturns (Some lms)"
    and "detected fps e lms (normalised W H f) s = (fr, s2)"
  shows "process_frame W H fps n e s =
           (if caption_raises e then frame_error e fr s2
            else write_frame e (fr\<lparr>caption := Some (frame_count s2, n, True)\<rparr>) s2)"
  using assms by (simp add: reaches_estimator_step)

lemma frame_error_keeps:
  "detected_frames (frame_error e fr s) = detected_frames s"
  "keypoints_data (frame_error e fr s) = keypoints_data s"
  "set (logged s) \<subseteq> set (logged (frame_error e fr s))"
  by (auto simp: frame_error_def)

lemma write_frame_keeps:
  "detected_frames (write_frame e fr s) = detected_frames s"
  "keypoints_data (write_frame e fr s) = keypoints_data s"
  "set (logged s) \<subseteq> set (logged (write_frame e fr s))"
  by (auto simp: write_frame_def frame_error_def)

text \<open>
  Claim C5, amended: for every frame on which the estimator returns a skeleton, the frame
  is counted as detected and as processed; when drawing the overlay succeeds, exactly one
  keypoints entry is appended, with the running frame counter as its index, that counter
  divided by the frame rate as its timestamp, and the returned landmarks one for one;
  when drawing raises, the failure is logged, no entry is appended, and the frame is
  still written (without skeleton, with its caption).
\<close>

theorem detection_recorded:
  assumes "reaches_estimator W H e f" and "estimate e = EstReturns (Some lms)"
    and "fps \<noteq> 0"
  shows "detected_frames (process_frame W H fps n e s) = detected_frames s + 1
         \<and> frame_count (process_frame W H fps n e s) = frame_count s + 1
         \<and> (\<not> draw_raises e \<longrightarrow>
              keypoints_data (process_frame W H fps n e s) =
                keypoints_data s @
                  [\<lparr>kp_frame = frame_count s, kp_landmarks = lms,
                    kp_timestamp = rat_of_nat (frame_count s) / fps\<rparr>])
         \<and> (draw_raises e \<longrightarrow>
              keypoints_data (process_frame W H fps n e s) = keypoints_data s
              \<and> DrawErrorAt (frame_count s) \<in> set (logged (process_frame W H fps n e s)))
         \<and> (\<not> write_raises e \<longrightarrow>
              length (written (process_frame W H fps n e s)) = length (written s) + 1)
         \<and> (draw_raises e \<and> \<not> caption_raises e \<and> \<not> write_raises e \<longrightarrow>
              written (process_frame W H fps n e s) =
                written s @ [\<lparr>picture = normalised W H f, skeleton = None,
                               caption = Some (frame_count s, n, True)\<rparr>])"
proof -
  have u: "usable e"
    using assms(1) by (simp add: reaches_estimator_def usable_def)
  obtain fr s2 where d: "detected fps e lms (normalised W H f) s = (fr, s2)"
    by (cases "detected fps e lms (normalised W H f) s")
  note pf = after_detection[OF assms(1,2) d, of n]
  have c1: "detected_frames (process_frame W H fps n e s) = detected_frames s + 1"
    using d by (cases "draw_raises e")
      (auto simp: pf frame_error_keeps write_frame_keeps detected_drawn[OF _ assms(3)]
                  detected_not_drawn)
  have c2: "frame_count (process_frame W H fps n e s) = frame_count s + 1"
    using u by (rule process_frame_count)
  have c3: "keypoints_data (process_frame W H fps n e s) =
              keypoints_data s @
                [\<lparr>kp_frame = frame_count s, kp_landmarks = lms,
                  kp_timestamp = rat_of_nat (frame_count s) / fps\<rparr>]"
    if "\<not> draw_raises e"
    using d detected_drawn[OF that assms(3), of lms "normalised W H f" s]
    by (auto simp: pf frame_error_keeps write_frame_keeps)
  have c4: "keypoints_data (process_frame W H fps n e s) = keypoints_data s
            \<and> DrawErrorAt (frame_count s) \<in> set (logged (process_frame W H fps n e s))"
    if "draw_raises e"
  proof -
    from d detected_not_drawn[OF that, of fps lms "normalised W H f" s]
    have s2: "s2 = s\<lparr>detected_frames := detected_frames s + 1,
                      logged := logged s @ [DrawErrorAt (frame_count s)]\<rparr>"
      by simp
    then have "DrawErrorAt (frame_count s) \<in> set (logged s2)"
      by simp
    moreover have "set (logged s2) \<subseteq> set (logged (process_frame W H fps n e s))"
      by (simp add: pf frame_error_keeps write_frame_keeps)
    moreover have "keypoints_data (process_frame W H fps n e s) = keypoints_data s2"
      by (simp add: pf frame_error_keeps write_frame_keeps)
    ultimately show ?thesis
      using s2 by auto
  qed
  have c5: "length (written (process_frame W H fps n e s)) = length (written s) + 1"
    if "\<not> write_raises e"
    using u that by (rule process_frame_written)
  have c6: "written (process_frame W H fps n e s) =
              written s @ [\<lparr>picture = normalised W H f, skeleton = None,
                             caption = Some (frame_count s, n, True)\<rparr>]"
    if "draw_raises e \<and> \<not> caption_raises e \<and> \<not> write_raises e"
    using that d detected_not_drawn[of e fps lms "normalised W H f" s]
    by (auto simp: pf write_frame_def plain_def)
  from c1 c2 c3 c4 c5 c6 show ?thesis
    by blast
qed

text \<open>
  Claim C5, as stated, fails: the drawing and the extraction of the keypoints share one
  \<^verbatim>\<open>try\<close> block, so on a frame whose skeleton was returned but whose drawing raises,
  the detection is counted and no keypoints entry is appended.
\<close>

theorem keypoints_counterexample:
  "estimate (draw_fails 0) = EstReturns (Some [nose])
   \<and> detected_frames (process_frame 640 480 30 1 (draw_fails 0) init_state) = 1
   \<and> keypoints_data (process_frame 640 480 30 1 (draw_fails 0) init_state) = []
   \<and> \<not> isl (outcome (process_video (demo_world [draw_fails 0]) ''in.mp4'' demo_out))
   \<and> res_detected_frames
        (projr (outcome (process_video (demo_world [draw_fails 0]) ''in.mp4'' demo_out))) = 1
   \<and> keypoints_count
        (projr (outcome (process_video (demo_world [draw_fails 0]) ''in.mp4'' demo_out))) = 0"
  by (simp add: demo_defs2 run_defs Let_def)

text \<open>Claim C5, amended, at the fourth frame of a 30 fps video, once with a drawing that
  succeeds and once with one that raises.\<close>

theorem detection_recorded_witness:
  "detected_frames (process_frame 640 480 30 5 (pose_found 7) (init_state\<lparr>frame_count := 3\<rparr>)) = 1
   \<and> keypoints_data (process_frame 640 480 30 5 (pose_found 7) (init_state\<lparr>frame_count := 3\<rparr>))
       = [\<lparr>kp_frame = 3, kp_landmarks = [nose], kp_timestamp = 1 / 10\<rparr>]
   \<and> keypoints_data (process_frame 640 480 30 5 (draw_fails 7) (init_state\<lparr>frame_count := 3\<rparr>)) = []
   \<and> logged (process_frame 640 480 30 5 (draw_fails 7) (init_state\<lparr>frame_count := 3\<rparr>))
       = [DrawErrorAt 3]
   \<and> written (process_frame 640 480 30 5 (draw_fails 7) (init_state\<lparr>frame_count := 3\<rparr>))
       = [\<lparr>picture = \<lparr>src = 7, cols = 640, rows = 480\<rparr>, skeleton = None,
           caption = Some (3, 5, True)\<rparr>]"
proof -
  let ?f = "\<lparr>src = 7, cols = 640, rows = 480\<rparr>"
  let ?s = "init_state\<lparr>frame_count := 3\<rparr>"
  have a: "reaches_estimator 640 480 (pose_found 7) ?f"
    by (simp add: demo_defs2 reaches_estimator_def image_size_def)
  have b: "estimate (pose_found 7) = EstReturns (Some [nose])"
    by (simp add: demo_defs2)
  have c: "(30::rat) \<noteq> 0"
    by simp
  have a': "reaches_estimator 640 480 (draw_fails 7) ?f"
    by (simp add: demo_defs2 reaches_estimator_def image_size_def)
  have b': "estimate (draw_fails 7) = EstReturns (Some [nose])"
    by (simp add: demo_defs2)
  have d: "\<not> draw_raises (pose_found 7)" "draw_raises (draw_fails 7)"
    "\<not> caption_raises (draw_fails 7)" "\<not> write_raises (draw_fails 7)"
    by (simp_all add: demo_defs2)
  have e: "frame_count ?s = 3" "detected_frames ?s = 0" "keypoints_data ?s = []"
    "written ?s = []" "normalised 640 480 ?f = ?f"
    by (simp_all add: init_state_def normalised_def)
  have l: "logged (process_frame 640 480 30 5 (draw_fails 7) ?s) = [DrawErrorAt 3]"
    by (simp add: demo_defs2 run_defs Let_def)
  from detection_recorded[OF a b c, of 5 ?s] detection_recorded[OF a' b' c, of 5 ?s] d e l
  show ?thesis
    by simp
qed

section \<open>The validator's contract\<close>

text \<open>
  Claim C7: \<^verbatim>\<open>_validate_video_file\<close> raises a \<^verbatim>\<open>VideoProcessingError\<close> exactly when
  one of the listed conditions holds (file missing, size 0, size over 500 MB, source
  unopenable, frame rate at most 0 or above 240, no frames, a non-positive width or
  height, duration over 600 s) and returns the metadata otherwise; on a zero-byte file it
  raises before the capture is even opened; it never reads a frame; and every handle it
  opened is released when it returns or raises.
\<close>

theorem validate_contract:
  "is_error (snd (validate_video_file p vf)) = spec_invalid_input vf
   \<and> (\<not> spec_invalid_input vf \<longrightarrow> \<not> isl (snd (validate_video_file p vf)))
   \<and> (\<forall>f. vf = Some f \<and> st_size f = 0 \<longrightarrow>
          validate_video_file p vf = ([], Inl (VideoProcessingError VideoFileEmpty)))
   \<and> open_handles (fst (validate_video_file p vf)) = 0
   \<and> CapRead \<notin> set (fst (validate_video_file p vf))"
proof -
  have "\<not> isl (snd (validate_video_file p vf))" if "\<not> spec_invalid_input vf"
  proof (cases "snd (validate_video_file p vf)")
    case (Inl e)
    with validate_only_own_errors[of p vf] have "is_error (snd (validate_video_file p vf))"
      by (cases e) (auto simp: is_error_def)
    with that show ?thesis
      by (simp add: validate_error_iff)
  next
    case (Inr md)
    then show ?thesis by simp
  qed
  moreover have "validate_video_file p (Some f) = ([], Inl (VideoProcessingError VideoFileEmpty))"
    if "st_size f = 0" for f
    using that by (simp add: validate_video_file_def MAX_FILE_SIZE_MB_def)
  ultimately show ?thesis
    by (auto simp: validate_error_iff validate_handles validate_no_read)
qed

text \<open>Claim C7 at a zero-byte file and at a valid one-frame video.\<close>

theorem validate_contract_witness:
  "validate_video_file ''in.mp4'' (Some empty_file) = ([], Inl (VideoProcessingError VideoFileEmpty))
   \<and> spec_invalid_input (Some empty_file)
   \<and> \<not> spec_invalid_input (Some (demo_video [still 0]))
   \<and> \<not> isl (snd (validate_video_file ''in.mp4'' (Some (demo_video [still 0]))))"
proof -
  have a: "st_size empty_file = 0"
    by (simp add: empty_file_def)
  have b: "\<not> spec_invalid_input (Some (demo_video [still 0]))"
    by (simp add: spec_invalid_input_def demo_defs py_int_def)
  have c: "spec_invalid_input (Some empty_file)"
    by (simp add: spec_invalid_input_def empty_file_def)
  from validate_contract[of "''in.mp4''" "Some empty_file"] a
    validate_contract[of "''in.mp4''" "Some (demo_video [still 0])"] b c
  show ?thesis
    by simp
qed

lemma accumulate_landmarks:
  "fold (\<lambda>l (t, c). (t + visibility l, Suc c)) ls (t0, c0) =
     (t0 + sum_list (map visibility ls), c0 + length ls)"
  by (induction ls arbitrary: t0 c0) (simp_all add: add.assoc)

lemma accumulate_frames:
  "fold (\<lambda>frame_data. fold (\<lambda>l (t, c). (t + visibility l, Suc c)) (kp_landmarks frame_data))
        kd (t0, c0) =
     (t0 + sum_list (all_visibilities kd), c0 + length (all_visibilities kd))"
proof (induction kd arbitrary: t0 c0)
  case Nil
  then show ?case by (simp add: all_visibilities_def)
next
  case (Cons fd kd)
  have "all_visibilities (fd # kd) = map visibility (kp_landmarks fd) @ all_visibilities kd"
    by (simp add: all_visibilities_def)
  then show ?case
    by (simp add: accumulate_landmarks Cons.IH add.assoc)
qed

lemma accumulate_visibility_eq:
  "accumulate_visibility kd = (sum_list (all_visibilities kd), length (all_visibilities kd))"
  by (simp add: accumulate_visibility_def accumulate_frames)

lemma average_visibility_eq:
  "calculate_average_visibility kd =
     (if all_visibilities kd = [] then None else Some (py_round3 (spec_mean_visibility kd)))"
proof (cases "kd = []")
  case True
  then show ?thesis
    by (simp add: calculate_average_visibility_def all_visibilities_def)
next
  case False
  then show ?thesis
    by (simp add: calculate_average_visibility_def accumulate_visibility_eq truediv_def
          spec_mean_visibility_def)
qed

lemma py_round3_close: "\<bar>py_round3 x - x\<bar> \<le> 1 / 2000"
proof -
  define y where "y = x * 1000"
  define f where "f = \<lfloor>y\<rfloor>"
  define d where "d = y - of_int f"
  have d: "0 \<le> d" "d < 1"
    unfolding d_def f_def by linarith+
  define r where "r = (if d < 1 / 2 then f else if 1 / 2 < d then f + 1
                       else if even f then f else f + 1)"
  have near: "\<bar>rat_of_int r - y\<bar> \<le> 1 / 2"
    using d unfolding r_def d_def by auto
  have "py_round3 x = of_int r / 1000"
    by (simp add: py_round3_def round_half_even_def Let_def r_def d_def f_def y_def)
  then have "py_round3 x - x = (rat_of_int r - y) / 1000"
    by (simp add: y_def)
  then have "\<bar>py_round3 x - x\<bar> = \<bar>(rat_of_int r - y) / 1000\<bar>"
    by (simp only:)
  also have "\<dots> = \<bar>rat_of_int r - y\<bar> / 1000"
    by (simp only: abs_divide abs_numeral)
  finally have eq: "\<bar>py_round3 x - x\<bar> = \<bar>rat_of_int r - y\<bar> / 1000" .
  from near have "\<bar>rat_of_int r - y\<bar> / 1000 \<le> (1 / 2) / 1000"
    by (rule divide_right_mono) simp
  then have "\<bar>rat_of_int r - y\<bar> / 1000 \<le> 1 / 2000"
    by simp
  then show ?thesis
    by (simp only: eq)
qed

section \<open>Statistics: rates and average visibility\<close>

text \<open>Keypoints entries are appended only for frames counted as detected.\<close>

lemma detected_bound:
  "detected fps e lms f s = (fr, s2) \<Longrightarrow> length (keypoints_data s) \<le> detected_frames s \<Longrightarrow>
   length (keypoints_data s2) \<le> detected_frames s2"
  by (auto simp: detected_def Let_def truediv_def split: if_splits)

lemma process_frame_bound:
  "length (keypoints_data s) \<le> detected_frames s \<Longrightarrow>
   length (keypoints_data (process_frame W H fps n e s))
     \<le> detected_frames (process_frame W H fps n e s)"
  by (auto simp: process_frame_def Let_def invalid_frame_def frame_error_keeps write_frame_keeps
           split: option.splits estimation.splits prod.splits dest: detected_bound)

lemma frame_loop_bound:
  "length (keypoints_data s) \<le> detected_frames s \<Longrightarrow>
   length (keypoints_data (fst (frame_loop W H fps n es s)))
     \<le> detected_frames (fst (frame_loop W H fps n es s))"
  by (induction es arbitrary: s) (auto simp: process_frame_bound split: option.splits)

lemma undetected_no_keypoints:
  assumes "outcome (process_video w ip op) = Inr r" and "res_detected_frames r = 0"
  shows "average_visibility r = None"
proof -
  from assms(1) obtain md f s op' where
    loop: "loop_of md f = (s, None)" and fin: "finish w ip op' md s = Inr r"
    by (rule process_video_Inr)
  from frame_loop_bound[of init_state "md_width md" "md_height md" "md_fps md"
         "md_frame_count md" "reads (video f)"] loop
  have "length (keypoints_data s) \<le> detected_frames s"
    by (simp add: loop_of_def init_state_def)
  with finish_Inr[OF fin] assms(2) show ?thesis
    by (simp add: calculate_average_visibility_def)
qed

text \<open>The rounding is to a nearest integer.\<close>

lemma round_half_even_close: "\<bar>rat_of_int (round_half_even y) - y\<bar> \<le> 1 / 2"
proof -
  define f where "f = \<lfloor>y\<rfloor>"
  define d where "d = y - of_int f"
  have d: "0 \<le> d" "d < 1"
    unfolding d_def f_def by linarith+
  have "round_half_even y = (if d < 1 / 2 then f else if 1 / 2 < d then f + 1
                              else if even f then f else f + 1)"
    by (simp add: round_half_even_def Let_def d_def f_def)
  then show ?thesis
    using d unfolding d_def by auto
qed

text \<open>What a completed run reports: the rates of its own counters, formatted, and the
  average visibility of the keypoints its loop collected.\<close>

lemma run_rates:
  assumes "outcome (process_video w ip op) = Inr r"
  shows "detection_rate r =
           format_2f (rat_of_nat (res_detected_frames r) / rat_of_int (total_frames r) * 100)
           @ [CHR ''%'']
         \<and> failed_rate r =
           format_2f (rat_of_nat (res_failed_frames r) / rat_of_int (total_frames r) * 100)
           @ [CHR ''%'']"
proof -
  from assms obtain md f s op' where
    md: "snd (validate_video_file ip (input_file w)) = Inr md"
    and fin: "finish w ip op' md s = Inr r"
    by (rule process_video_Inr)
  from md have "0 < md_frame_count md"
    by (rule validate_Inr)
  with finish_Inr[OF fin] show ?thesis
    by simp
qed

lemma run_average_visibility:
  assumes "outcome (process_video w ip op) = Inr r"
    and "input_file w = Some f"
    and "snd (validate_video_file ip (input_file w)) = Inr md"
  shows "average_visibility r = calculate_average_visibility (keypoints_data (fst (loop_of md f)))"
proof -
  from assms(1) obtain md' f' s op' where
    md': "snd (validate_video_file ip (input_file w)) = Inr md'"
    and f': "input_file w = Some f'"
    and loop: "loop_of md' f' = (s, None)"
    and fin: "finish w ip op' md' s = Inr r"
    by (rule process_video_Inr)
  from md' f' assms(2,3) have "md' = md" "f' = f"
    by simp_all
  with loop finish_Inr[OF fin] show ?thesis
    by simp
qed

text \<open>Formatted values used below.\<close>

lemma str_nat_digit: "n < 10 \<Longrightarrow> str_nat n = [digit n]"
  by (simp add: str_nat.simps)

lemma str_nat_33: "str_nat 33 = ''33''"
  by (simp add: str_nat.simps[of 33] str_nat_digit digit_def)

lemma format_third: "format_2f (100 / 3) = ''33.33''"
proof -
  have fl: "\<lfloor>10000 / 3 :: rat\<rfloor> = 3333"
    by (rule floor_unique) simp_all
  have "round_half_even (100 / 3 * 100) = 3333"
    by (simp add: round_half_even_def Let_def fl)
  then show ?thesis
    by (simp add: format_2f_def Let_def str_nat_33 digit_def)
qed

lemma str_nat_50: "str_nat 50 = ''50''"
  by (simp add: str_nat.simps[of 50] str_nat_digit digit_def)

lemma format_fifty: "format_2f 50 = ''50.00''"
proof -
  have "round_half_even (50 * 100) = 5000"
    by (simp add: round_half_even_def Let_def)
  then show ?thesis
    by (simp add: format_2f_def Let_def str_nat_50 digit_def)
qed

text \<open>
  Claim C8, as stated, fails twice. The code returns \<^verbatim>\<open>round(total_visibility / count, 3)\<close>,
  not the mean: three landmarks of visibility 0.1, 0.1 and 0.2 have the mean 2/15, and the
  value returned is 0.133. And the rates in the result are strings formatted to two
  decimals: a run that detects a pose in one of three frames reports \<^verbatim>\<open>33.33%\<close>, not
  100/3.
\<close>

theorem statistics_counterexample:
  "calculate_average_visibility thirds = Some (133 / 1000)
   \<and> spec_mean_visibility thirds = 2 / 15
   \<and> \<not> isl (outcome (process_video (demo_world [pose_found 0, still 1, still 2]) ''in.mp4'' demo_out))
   \<and> res_detected_frames
        (projr (outcome (process_video (demo_world [pose_found 0, still 1, still 2]) ''in.mp4'' demo_out))) = 1
   \<and> total_frames
        (projr (outcome (process_video (demo_world [pose_found 0, still 1, still 2]) ''in.mp4'' demo_out))) = 3
   \<and> detection_rate
        (projr (outcome (process_video (demo_world [pose_found 0, still 1, still 2]) ''in.mp4'' demo_out)))
      = ''33.33%''"
proof -
  let ?j = "process_video (demo_world [pose_found 0, still 1, still 2]) ''in.mp4'' demo_out"
  have fl: "\<lfloor>400 / 3 :: rat\<rfloor> = 133"
    by (rule floor_unique) simp_all
  have vs: "all_visibilities thirds = [1 / 10, 1 / 10, 2 / 10]"
    by (simp add: thirds_def seen_def nose_def all_visibilities_def)
  then have m: "spec_mean_visibility thirds = 2 / 15"
    by (simp add: spec_mean_visibility_def)
  have pr: "py_round3 (2 / 15) = 133 / 1000"
    by (simp add: py_round3_def round_half_even_def Let_def fl)
  have h: "calculate_average_visibility thirds = Some (py_round3 (spec_mean_visibility thirds))"
    using vs by (simp add: average_visibility_eq)
  have a: "calculate_average_visibility thirds = Some (133 / 1000)"
    unfolding h m pr by simp
  have ok: "outcome ?j = Inr (projr (outcome ?j))"
    by (simp add: demo_defs2 run_defs Let_def)
  then have nl: "\<not> isl (outcome ?j)"
    by (metis sum.disc(2))
  have c: "res_detected_frames (projr (outcome ?j)) = 1" "total_frames (projr (outcome ?j)) = 3"
    by (simp_all add: demo_defs2 run_defs Let_def)
  from run_rates[OF ok] have "detection_rate (projr (outcome ?j)) =
      format_2f (rat_of_nat 1 / rat_of_int 3 * 100) @ [CHR ''%'']"
    unfolding c by (rule conjunct1)
  then have dr: "detection_rate (projr (outcome ?j)) = ''33.33%''"
    by (simp add: format_third)
  from a m nl c dr show ?thesis
    by blast
qed

text \<open>
  Claim C8, amended: the rates are computed as \<^verbatim>\<open>n / total_frames * 100\<close>, and as 0
  without any division when \<^verbatim>\<open>total_frames\<close> is 0, so they never raise; a completed run
  reports the rates of its own counters rounded to two decimals (to a nearest hundredth)
  and followed by a percent sign; the average visibility is the mean visibility over
  every landmark of every recorded keypoints entry rounded to three decimals (hence
  within 0.0005 of the mean), and \<^verbatim>\<open>None\<close> when no landmark was recorded, in particular
  when no entry was; a completed run reports this average of the keypoints its loop
  collected, and none when it detected no frame.
\<close>

theorem statistics_total:
  "rate k nf = Inr (if 0 < nf then rat_of_nat k / rat_of_int nf * 100 else 0)
   \<and> rate k 0 = Inr 0
   \<and> calculate_average_visibility kd =
       (if all_visibilities kd = [] then None
        else Some (py_round3 (spec_mean_visibility kd)))
   \<and> calculate_average_visibility [] = None
   \<and> \<bar>py_round3 x - x\<bar> \<le> 1 / 2000
   \<and> \<bar>rat_of_int (round_half_even x) - x\<bar> \<le> 1 / 2
   \<and> (outcome (process_video w ip op) = Inr r \<longrightarrow>
        detection_rate r =
          format_2f (rat_of_nat (res_detected_frames r) / rat_of_int (total_frames r) * 100)
          @ [CHR ''%'']
        \<and> failed_rate r =
          format_2f (rat_of_nat (res_failed_frames r) / rat_of_int (total_frames r) * 100)
          @ [CHR ''%''])
   \<and> (outcome (process_video w ip op) = Inr r \<and> input_file w = Some f
        \<and> snd (validate_video_file ip (input_file w)) = Inr md \<longrightarrow>
        average_visibility r =
          calculate_average_visibility (keypoints_data (fst (loop_of md f))))
   \<and> (outcome (process_video w ip op) = Inr r \<and> res_detected_frames r = 0 \<longrightarrow>
        average_visibility r = None)"
proof -
  have "rate k 0 = Inr 0"
    by (simp add: rate_value)
  moreover have "calculate_average_visibility [] = None"
    by (simp add: calculate_average_visibility_def)
  moreover note rate_value[of k nf] average_visibility_eq[of kd] py_round3_close[of x]
    round_half_even_close[of x] run_rates[of w ip op r]
    run_average_visibility[of w ip op r f md] undetected_no_keypoints[of w ip op r]
  ultimately show ?thesis
    by blast
qed

text \<open>Claim C8, amended, at one detection in four frames, at no frames at all, at two
  landmarks of visibility 0.9 and 0.5, at a run that detects a pose in one of two
  frames, and at a run that detects none.\<close>

theorem statistics_total_witness:
  "rate 1 4 = Inr 25 \<and> rate 1 0 = Inr 0
   \<and> calculate_average_visibility [\<lparr>kp_frame = 0, kp_landmarks = [nose, seen (1 / 2)],
                                     kp_timestamp = 0\<rparr>] = Some (7 / 10)
   \<and> detection_rate
        (projr (outcome (process_video (demo_world [pose_found 0, still 1]) ''in.mp4'' demo_out)))
      = ''50.00%''
   \<and> average_visibility
        (projr (outcome (process_video (demo_world [pose_found 0, still 1]) ''in.mp4'' demo_out)))
      = Some (9 / 10)
   \<and> average_visibility
        (projr (outcome (process_video (demo_world [still 0]) ''in.mp4'' demo_out)))
      = None"
proof -
  let ?kd = "[\<lparr>kp_frame = 0, kp_landmarks = [nose, seen (1 / 2)], kp_timestamp = 0\<rparr>]"
  let ?w = "demo_world [pose_found 0, still 1]"
  let ?j = "process_video ?w ''in.mp4'' demo_out"
  let ?f = "demo_video [pose_found 0, still 1]"
  let ?md = "projr (snd (validate_video_file ''in.mp4'' (input_file ?w)))"
  have vs: "all_visibilities ?kd = [9 / 10, 1 / 2]"
    by (simp add: seen_def nose_def all_visibilities_def)
  then have m: "spec_mean_visibility ?kd = 7 / 10"
    by (simp add: spec_mean_visibility_def)
  have p: "py_round3 (7 / 10) = 7 / 10" "py_round3 (9 / 10) = 9 / 10"
    by (simp_all add: py_round3_def round_half_even_def Let_def)
  have ok: "outcome ?j = Inr (projr (outcome ?j))"
    by (simp add: demo_defs2 run_defs Let_def)
  have c: "res_detected_frames (projr (outcome ?j)) = 1" "total_frames (projr (outcome ?j)) = 2"
    by (simp_all add: demo_defs2 run_defs Let_def)
  have fi: "input_file ?w = Some ?f"
    by (simp add: demo_world_def)
  have v: "snd (validate_video_file ''in.mp4'' (input_file ?w)) = Inr ?md"
    by (simp add: demo_defs2 run_defs Let_def)
  have kd: "keypoints_data (fst (loop_of ?md ?f)) =
              [\<lparr>kp_frame = 0, kp_landmarks = [nose], kp_timestamp = 0\<rparr>]"
    by (simp add: demo_defs2 run_defs Let_def)
  have av1: "calculate_average_visibility [\<lparr>kp_frame = 0, kp_landmarks = [nose], kp_timestamp = 0\<rparr>]
               = Some (9 / 10)"
    by (simp add: average_visibility_eq all_visibilities_def spec_mean_visibility_def nose_def p)
  note t = statistics_total[of 1 4 ?kd 0 ?w "''in.mp4''" demo_out "projr (outcome ?j)" ?f ?md]
  from t have "rate 1 4 = Inr (if (0::int) < 4 then rat_of_nat 1 / rat_of_int 4 * 100 else 0)"
    by (rule conjunct1)
  then have r1: "rate 1 4 = Inr 25"
    by simp
  from t have r2: "rate 1 0 = Inr 0"
    by blast
  from t have "calculate_average_visibility ?kd =
      (if all_visibilities ?kd = [] then None else Some (py_round3 (spec_mean_visibility ?kd)))"
    by blast
  then have av: "calculate_average_visibility ?kd = Some (7 / 10)"
    unfolding m p vs by simp
  from t ok have "detection_rate (projr (outcome ?j)) =
      format_2f (rat_of_nat (res_detected_frames (projr (outcome ?j)))
        / rat_of_int (total_frames (projr (outcome ?j))) * 100) @ [CHR ''%'']"
    by blast
  then have dr: "detection_rate (projr (outcome ?j)) = ''50.00%''"
    unfolding c by (simp add: format_fifty)
  from t ok fi v have "average_visibility (projr (outcome ?j)) =
      calculate_average_visibility (keypoints_data (fst (loop_of ?md ?f)))"
    by blast
  then have ar: "average_visibility (projr (outcome ?j)) = Some (9 / 10)"
    unfolding kd av1 .
  let ?n = "process_video (demo_world [still 0]) ''in.mp4'' demo_out"
  have ok': "outcome ?n = Inr (projr (outcome ?n))"
    by (simp add: demo_defs run_defs Let_def)
  have z: "res_detected_frames (projr (outcome ?n)) = 0"
    by (simp add: demo_defs run_defs Let_def)
  from statistics_total[of 1 4 ?kd 0 "demo_world [still 0]" "''in.mp4''" demo_out
         "projr (outcome ?n)" ?f ?md] ok' z
  have none: "average_visibility (projr (outcome ?n)) = None"
    by blast
  from r1 r2 av dr ar none show ?thesis
    by blast
qed

section \<open>Codec negotiation: the result\<close>

lemma try_codecs_Some:
  "try_codecs fourcc extension cs = Some (c, ext) \<Longrightarrow>
   \<exists>codec. (codec, ext) \<in> set cs \<and> fourcc codec = Inr (Some c)"
  by (induction fourcc extension cs rule: try_codecs.induct)
     (auto split: sum.splits option.splits if_splits)

lemma try_codecs_None:
  "\<forall>codec \<in> fst ` set cs. unavailable fourcc codec \<Longrightarrow> try_codecs fourcc extension cs = None"
  by (induction fourcc extension cs rule: try_codecs.induct)
     (auto simp: unavailable_def split: sum.splits option.splits)






section \<open>The pose detector's scope: errors of the body\<close>

text \<open>
  Claim C10: once the detector exists, \<^verbatim>\<open>close\<close> is called on every exit path, whether
  the body returns or raises; an exception of the body is re-raised as \<^verbatim>\<open>Pose detector
  initialization failed\<close> with the body's message, which is exactly what a constructor
  raising the same exception gives; a body that returns passes its value through. In
  \<^verbatim>\<open>process_video\<close> a read that raises in the middle of the loop is reported as an
  initialization failure, with the same outcome as a run whose detector could not be
  constructed.
\<close>

theorem pose_scope_masks_body_errors:
  "snd (get_pose_detector InitOk cr (Inl e :: exn + 'a)) =
     Inl (VideoProcessingError (PoseInitFailed (str e)))
   \<and> snd (get_pose_detector (InitRaises e) cr body) =
       snd (get_pose_detector InitOk cr (Inl e :: exn + 'a))
   \<and> fst (get_pose_detector InitOk cr body) =
       [PoseCreated, if cr then PoseCloseRaised else PoseClosed]
   \<and> snd (get_pose_detector InitOk cr (Inr v :: exn + 'a)) = Inr v
   \<and> outcome (process_video (demo_world [still 0, read_error 1]) ''in.mp4'' demo_out) =
       Inl (VideoProcessingError (PoseInitFailed (Text ''boom'')))
   \<and> outcome (process_video (pose_ctor_fails [still 0, still 1]) ''in.mp4'' demo_out) =
       outcome (process_video (demo_world [still 0, read_error 1]) ''in.mp4'' demo_out)
   \<and> pose_events (process_video (demo_world [still 0, read_error 1]) ''in.mp4'' demo_out) =
       [PoseCreated, PoseClosed]"
proof -
  have a: "snd (get_pose_detector InitOk cr (Inl e :: exn + 'a)) =
             Inl (VideoProcessingError (PoseInitFailed (str e)))"
    by (simp add: get_pose_detector_def)
  have b: "snd (get_pose_detector (InitRaises e) cr body) =
             snd (get_pose_detector InitOk cr (Inl e :: exn + 'a))"
    by (simp add: get_pose_detector_def)
  have c: "fst (get_pose_detector InitOk cr body) =
             [PoseCreated, if cr then PoseCloseRaised else PoseClosed]"
    by (simp add: get_pose_detector_def)
  have d: "snd (get_pose_detector InitOk cr (Inr v :: exn + 'a)) = Inr v"
    by (simp add: get_pose_detector_def)
  have e: "outcome (process_video (demo_world [still 0, read_error 1]) ''in.mp4'' demo_out) =
             Inl (VideoProcessingError (PoseInitFailed (Text ''boom'')))"
    by (simp add: read_error_def demo_defs run_defs Let_def)
  have f: "outcome (process_video (pose_ctor_fails [still 0, still 1]) ''in.mp4'' demo_out) =
             Inl (VideoProcessingError (PoseInitFailed (Text ''boom'')))"
    by (simp add: pose_ctor_fails_def demo_defs run_defs Let_def)
  have g: "pose_events (process_video (demo_world [still 0, read_error 1]) ''in.mp4'' demo_out) =
             [PoseCreated, PoseClosed]"
    by (simp add: read_error_def demo_defs run_defs Let_def)
  from a b c d e f g show ?thesis
    by (simp only: simp_thms)
qed

text \<open>Claim C10 at a body that raises and at a constructor that raises the same
  exception.\<close>

theorem pose_scope_masks_body_errors_witness:
  "snd (get_pose_detector InitOk False (Inl boom :: exn + nat)) =
     Inl (VideoProcessingError (PoseInitFailed (Text ''boom'')))
   \<and> snd (get_pose_detector (InitRaises boom) False (Inr (0::nat))) =
       Inl (VideoProcessingError (PoseInitFailed (Text ''boom'')))
   \<and> fst (get_pose_detector InitOk False (Inl boom :: exn + nat)) = [PoseCreated, PoseClosed]"
proof -
  note t = pose_scope_masks_body_errors[of False boom "Inr (0::nat)" 0]
  have s: "str boom = Text ''boom''"
    by (simp add: boom_def)
  from t have a: "snd (get_pose_detector InitOk False (Inl boom :: exn + nat)) =
                    Inl (VideoProcessingError (PoseInitFailed (str boom)))"
    by (rule conjunct1)
  from t have b: "snd (get_pose_detector (InitRaises boom) False (Inr (0::nat))) =
                    snd (get_pose_detector InitOk False (Inl boom :: exn + nat))"
    by blast
  have c: "fst (get_pose_detector InitOk False (Inl boom :: exn + nat)) = [PoseCreated, PoseClosed]"
    by (simp add: get_pose_detector_def)
  from a b c s show ?thesis
    by simp
qed

section \<open>Retries: the attempt state machine\<close>

lemma attempts_all_fail:
  assumes "\<forall>i < k. isl (run (a + i))"
  shows "attempts run m k a lerr sl =
           \<lparr>calls = a + k,
            sleeps = sl @ map (\<lambda>i. 2 ^ i) (filter (\<lambda>i. int i < m - 1) [a..<a + k]),
            final = Inl (VideoProcessingError
                           (AllAttemptsFailed m
                              (map_option str
                                 (if k = 0 then lerr else Some (projl (run (a + k - 1)))))))\<rparr>"
  using assms
proof (induction k arbitrary: a lerr sl)
  case 0
  then show ?case by simp
next
  case (Suc k)
  from Suc.prems have "isl (run (a + 0))"
    by blast
  then obtain e where e: "run a = Inl e"
    by (cases "run a") auto
  from Suc.prems have rest: "\<forall>i < k. isl (run (Suc a + i))"
    by auto
  have up: "[a..<Suc (a + k)] = a # [Suc a..<Suc (a + k)]"
    by (rule upt_conv_Cons) simp
  show ?case
    using e by (simp add: Suc.IH[OF rest] up del: upt_Suc)
qed

lemma attempts_first_success:
  assumes "\<forall>i < j. isl (run (a + i))" and "run (a + j) = Inr r" and "j < k"
  shows "attempts run m k a lerr sl =
           \<lparr>calls = a + j + 1,
            sleeps = sl @ map (\<lambda>i. 2 ^ i) (filter (\<lambda>i. int i < m - 1) [a..<a + j]),
            final = Inr r\<rparr>"
  using assms
proof (induction j arbitrary: a k lerr sl)
  case 0
  then obtain k' where "k = Suc k'"
    by (cases k) auto
  with 0 show ?case by simp
next
  case (Suc j)
  then obtain k' where k: "k = Suc k'" "j < k'"
    by (cases k) auto
  from Suc.prems have "isl (run (a + 0))"
    by blast
  then obtain e where e: "run a = Inl e"
    by (cases "run a") auto
  from Suc.prems have rest: "\<forall>i < j. isl (run (Suc a + i))" "run (Suc a + j) = Inr r"
    by auto
  have up: "[a..<Suc (a + j)] = a # [Suc a..<Suc (a + j)]"
    by (rule upt_conv_Cons) simp
  show ?case
    using e k by (simp add: Suc.IH[OF rest k(2)] up del: upt_Suc)
qed

lemma filter_below:
  "n \<le> b \<Longrightarrow> filter (\<lambda>i. i < b) [0..<n] = [0..<n]"
  by (induction n) auto

lemma filter_upto:
  "filter (\<lambda>i. i < b) [0..<Suc b] = [0..<b]"
  by (simp add: filter_below)

lemma strict_powers: "sorted_wrt (<) (map (\<lambda>i. (2::nat) ^ i) [0..<n])"
  by (simp add: sorted_wrt_map sorted_wrt_iff_nth_less)

lemma retry_all_fail:
  assumes "1 \<le> m" and "\<forall>i < nat m. isl (run i)"
  shows "retry run m =
           \<lparr>calls = nat m, sleeps = map (\<lambda>i. 2 ^ i) [0..<nat m - 1],
            final = Inl (VideoProcessingError
                           (AllAttemptsFailed m (Some (str (projl (run (nat m - 1)))))))\<rparr>"
proof -
  from assms(1) obtain b where b: "nat m = Suc b"
    by (cases "nat m") auto
  with assms(1) have "\<And>i. (int i < m - 1) = (i < b)"
    by auto
  then have f: "filter (\<lambda>i. int i < m - 1) [0..<Suc b] = [0..<b]"
    by (simp only: filter_upto)
  from assms(2) have "\<forall>i < nat m. isl (run (0 + i))"
    by simp
  from attempts_all_fail[OF this, of m None "[]"] show ?thesis
    using b f by (simp add: retry_def del: upt_Suc)
qed

lemma retry_first_success:
  assumes "j < nat m" and "\<forall>i < j. isl (run i)" and "run j = Inr r"
  shows "retry run m = \<lparr>calls = j + 1, sleeps = map (\<lambda>i. 2 ^ i) [0..<j], final = Inr r\<rparr>"
proof -
  from assms(1) have "\<And>i. i < j \<Longrightarrow> int i < m - 1"
    by auto
  then have f: "filter (\<lambda>i. int i < m - 1) [0..<j] = [0..<j]"
    by (simp add: filter_id_conv)
  from assms(2,3) have "\<forall>i < j. isl (run (0 + i))" "run (0 + j) = Inr r"
    by simp_all
  from attempts_first_success[OF this assms(1), of m None "[]"] show ?thesis
    using f by (simp add: retry_def)
qed

lemma retry_cases:
  assumes "1 \<le> m"
  obtains (exhausted) "\<forall>i < nat m. isl (run i)"
            "retry run m =
               \<lparr>calls = nat m, sleeps = map (\<lambda>i. 2 ^ i) [0..<nat m - 1],
                final = Inl (VideoProcessingError
                               (AllAttemptsFailed m (Some (str (projl (run (nat m - 1)))))))\<rparr>"
  | (succeeded) j r where "j < nat m" "\<forall>i < j. isl (run i)" "run j = Inr r"
            "retry run m = \<lparr>calls = j + 1, sleeps = map (\<lambda>i. 2 ^ i) [0..<j], final = Inr r\<rparr>"
proof (cases "\<forall>i < nat m. isl (run i)")
  case True
  with assms exhausted retry_all_fail show ?thesis
    by blast
next
  case False
  define j where "j = (LEAST i. \<not> isl (run i))"
  from False obtain i0 where i0: "i0 < nat m" "\<not> isl (run i0)"
    by blast
  have nj: "\<not> isl (run j)"
    unfolding j_def using i0(2) by (rule LeastI[where P = "\<lambda>i. \<not> isl (run i)"])
  have jle: "j \<le> i0"
    unfolding j_def using i0(2) by (rule Least_le[where P = "\<lambda>i. \<not> isl (run i)"])
  have before: "\<forall>i < j. isl (run i)"
    unfolding j_def using not_less_Least by blast
  from nj obtain r where r: "run j = Inr r"
    by (cases "run j") auto
  from jle i0 have lt: "j < nat m"
    by simp
  from retry_first_success[OF lt before r] lt before r succeeded show ?thesis
    by blast
qed

lemma invalid_input_outcome:
  assumes "spec_invalid_input (input_file w)"
  shows "outcome (process_video w ip op) = Inl (projl (snd (validate_video_file ip (input_file w))))"
proof -
  from assms have "is_error (snd (validate_video_file ip (input_file w)))"
    by (simp add: validate_error_iff)
  then obtain msg where "snd (validate_video_file ip (input_file w)) = Inl (VideoProcessingError msg)"
    by (auto simp: is_error_def split: sum.splits exn.splits)
  then show ?thesis
    by (simp add: process_video_def raised_def)
qed

text \<open>
  Claim C4: for \<^verbatim>\<open>max_retries\<close> \<open>m \<ge> 1\<close>, \<^verbatim>\<open>process_video_with_retry\<close> calls the pipeline
  at most \<open>m\<close> times; when attempt \<open>j\<close> is the first to succeed it returns that attempt's
  result after \<open>j + 1\<close> calls, having slept \<open>2^0, \<dots>, 2^(j-1)\<close> seconds; when all \<open>m\<close>
  attempts fail it has slept \<open>2^0, \<dots>, 2^(m-2)\<close> seconds (none after the last attempt) and
  raises one error that wraps the message of attempt \<open>m - 1\<close>; the sleeps strictly
  increase.
\<close>

theorem retry_state_machine:
  assumes "1 \<le> m"
  shows "calls (process_video_with_retry env ip op m) \<le> nat m
         \<and> (\<forall>j r. j < nat m \<and> (\<forall>i < j. isl (outcome (process_video (env i) ip op)))
                   \<and> outcome (process_video (env j) ip op) = Inr r \<longrightarrow>
                process_video_with_retry env ip op m =
                  \<lparr>calls = j + 1, sleeps = map (\<lambda>i. 2 ^ i) [0..<j], final = Inr r\<rparr>)
         \<and> ((\<forall>i < nat m. isl (outcome (process_video (env i) ip op))) \<longrightarrow>
              process_video_with_retry env ip op m =
                \<lparr>calls = nat m, sleeps = map (\<lambda>i. 2 ^ i) [0..<nat m - 1],
                 final = Inl (VideoProcessingError
                                (AllAttemptsFailed m
                                   (Some (str (projl (outcome
                                      (process_video (env (nat m - 1)) ip op)))))))\<rparr>)
         \<and> sorted_wrt (<) (sleeps (process_video_with_retry env ip op m))"
proof -
  let ?run = "\<lambda>n. outcome (process_video (env n) ip op)"
  have pv: "process_video_with_retry env ip op m = retry ?run m"
    by (simp add: process_video_with_retry_def)
  have a: "calls (retry ?run m) \<le> nat m \<and> sorted_wrt (<) (sleeps (retry ?run m))"
    using assms by (cases rule: retry_cases[of m ?run]) (simp_all add: strict_powers)
  have b: "retry ?run m = \<lparr>calls = j + 1, sleeps = map (\<lambda>i. 2 ^ i) [0..<j], final = Inr r\<rparr>"
    if "j < nat m \<and> (\<forall>i < j. isl (?run i)) \<and> ?run j = Inr r" for j r
    using that retry_first_success[of j m ?run r] by blast
  have c: "retry ?run m =
             \<lparr>calls = nat m, sleeps = map (\<lambda>i. 2 ^ i) [0..<nat m - 1],
              final = Inl (VideoProcessingError
                             (AllAttemptsFailed m (Some (str (projl (?run (nat m - 1)))))))\<rparr>"
    if "\<forall>i < nat m. isl (?run i)"
    using assms that by (rule retry_all_fail)
  from a b c show ?thesis
    unfolding pv by blast
qed

text \<open>
  Claim C3, amended: a failure of validation is retried like any other failure. When the
  input is invalid at every attempt and \<^verbatim>\<open>max_retries\<close> is \<open>m \<ge> 1\<close>, the pipeline (and
  with it validation) is called \<open>m\<close> times, with sleeps of \<open>2^0, \<dots>, 2^(m-2)\<close> seconds in
  between, and one error wrapping the last validation message is raised; so there is one
  call and no sleep only for \<open>m = 1\<close>.
\<close>

theorem invalid_input_is_retried:
  assumes "1 \<le> m" and "\<forall>n < nat m. spec_invalid_input (input_file (env n))"
  shows "process_video_with_retry env ip op m =
           \<lparr>calls = nat m, sleeps = map (\<lambda>i. 2 ^ i) [0..<nat m - 1],
            final = Inl (VideoProcessingError
                           (AllAttemptsFailed m
                              (Some (str (projl (snd (validate_video_file ip
                                 (input_file (env (nat m - 1))))))))))\<rparr>"
proof -
  let ?run = "\<lambda>n. outcome (process_video (env n) ip op)"
  from assms(2) have f: "\<forall>i < nat m. isl (?run i)"
    by (simp add: invalid_input_outcome)
  from assms have "nat m - 1 < nat m"
    by simp
  with assms(2) have "spec_invalid_input (input_file (env (nat m - 1)))"
    by blast
  then have "projl (?run (nat m - 1)) =
               projl (snd (validate_video_file ip (input_file (env (nat m - 1)))))"
    by (simp add: invalid_input_outcome)
  with retry_all_fail[OF assms(1) f] show ?thesis
    by (simp add: process_video_with_retry_def)
qed

text \<open>
  Claim C3, as stated, fails: \<^verbatim>\<open>process_video_with_retry\<close> catches every
  \<^verbatim>\<open>Exception\<close> alike. On a missing input file with three attempts allowed it calls the
  pipeline three times and sleeps 1 and 2 seconds before it raises.
\<close>

theorem invalid_input_counterexample:
  "spec_invalid_input (input_file missing_world)
   \<and> process_video_with_retry always_missing ''in.mp4'' demo_out 3 =
       \<lparr>calls = 3, sleeps = [1, 2],
        final = Inl (VideoProcessingError
                       (AllAttemptsFailed 3 (Some (VideoFileNotFound ''in.mp4''))))\<rparr>"
  by (simp add: spec_invalid_input_def missing_world_def always_missing_def
        process_video_with_retry_def retry_def process_video_def validate_video_file_def
        raised_def demo_world_def eval_nat_numeral)

text \<open>Claim C3, amended, at a zero-byte file with two attempts allowed.\<close>

theorem invalid_input_is_retried_witness:
  "process_video_with_retry always_empty ''in.mp4'' demo_out 2 =
     \<lparr>calls = 2, sleeps = [1],
      final = Inl (VideoProcessingError (AllAttemptsFailed 2 (Some VideoFileEmpty)))\<rparr>"
proof -
  have a: "(1::int) \<le> 2"
    by simp
  have b: "\<forall>n < nat 2. spec_invalid_input (input_file (always_empty n))"
    by (simp add: always_empty_def empty_world_def empty_file_def spec_invalid_input_def)
  have c: "snd (validate_video_file ''in.mp4'' (input_file (always_empty (Suc 0)))) =
             Inl (VideoProcessingError VideoFileEmpty)"
    by (simp add: always_empty_def empty_world_def empty_file_def validate_video_file_def
          MAX_FILE_SIZE_MB_def)
  have d: "map (\<lambda>i. (2::nat) ^ i) [0..<nat 2 - 1] = [1]" "nat 2 = 2"
    by (simp_all add: eval_nat_numeral)
  from invalid_input_is_retried[OF a b, of "''in.mp4''" demo_out] show ?thesis
    by (simp add: c d)
qed

text \<open>
  Claim C4 at the two scenarios of the specification: the detector cannot be constructed
  on the first two of three attempts and the third succeeds; and, with two attempts, the
  file is missing at the first and the detector fails at the second, so that the error
  raised names the detector's failure.
\<close>

theorem retry_state_machine_witness:
  "process_video_with_retry flaky_env ''in.mp4'' demo_out 3 =
     \<lparr>calls = 3, sleeps = [1, 2],
      final = outcome (process_video (demo_world [still 0]) ''in.mp4'' demo_out)\<rparr>
   \<and> \<not> isl (outcome (process_video (demo_world [still 0]) ''in.mp4'' demo_out))
   \<and> process_video_with_retry failing_env ''in.mp4'' demo_out 2 =
       \<lparr>calls = 2, sleeps = [1],
        final = Inl (VideoProcessingError
                       (AllAttemptsFailed 2 (Some (PoseInitFailed (Text ''boom'')))))\<rparr>"
proof -
  let ?ok = "outcome (process_video (demo_world [still 0]) ''in.mp4'' demo_out)"
  let ?bad = "outcome (process_video (pose_ctor_fails [still 0]) ''in.mp4'' demo_out)"
  let ?gone = "outcome (process_video missing_world ''in.mp4'' demo_out)"
  have ok: "?ok = Inr (projr ?ok)"
    by (simp add: demo_defs run_defs Let_def)
  have bad: "?bad = Inl (VideoProcessingError (PoseInitFailed (Text ''boom'')))"
    by (simp add: pose_ctor_fails_def demo_defs run_defs Let_def)
  have gone: "?gone = Inl (VideoProcessingError (VideoFileNotFound ''in.mp4''))"
    by (simp add: missing_world_def demo_defs run_defs Let_def)
  have m3: "(1::int) \<le> 3" and m2: "(1::int) \<le> 2"
    by simp_all
  have f3: "(2::nat) < nat 3
            \<and> (\<forall>i < 2. isl (outcome (process_video (flaky_env i) ''in.mp4'' demo_out)))
            \<and> outcome (process_video (flaky_env 2) ''in.mp4'' demo_out) = Inr (projr ?ok)"
    using ok bad by (simp add: flaky_env_def)
  have f2: "\<forall>i < nat 2. isl (outcome (process_video (failing_env i) ''in.mp4'' demo_out))"
    using bad gone by (simp add: failing_env_def)
  have l2: "projl (outcome (process_video (failing_env (Suc 0)) ''in.mp4'' demo_out)) =
              VideoProcessingError (PoseInitFailed (Text ''boom''))"
    using bad by (simp add: failing_env_def)
  have n: "map (\<lambda>i. (2::nat) ^ i) [0..<2] = [1, 2]" "map (\<lambda>i. (2::nat) ^ i) [0..<nat 2 - 1] = [1]"
    "nat 2 = 2"
    by (simp_all add: eval_nat_numeral)
  from retry_state_machine[OF m3, of flaky_env "''in.mp4''" demo_out] f3
  have A: "process_video_with_retry flaky_env ''in.mp4'' demo_out 3 =
             \<lparr>calls = 2 + 1, sleeps = map (\<lambda>i. 2 ^ i) [0..<2], final = Inr (projr ?ok)\<rparr>"
    by blast
  from retry_state_machine[OF m2, of failing_env "''in.mp4''" demo_out] f2
  have B: "process_video_with_retry failing_env ''in.mp4'' demo_out 2 =
             \<lparr>calls = nat 2, sleeps = map (\<lambda>i. 2 ^ i) [0..<nat 2 - 1],
              final = Inl (VideoProcessingError
                 (AllAttemptsFailed 2
                    (Some (str (projl (outcome
                       (process_video (failing_env (nat 2 - 1)) ''in.mp4'' demo_out)))))))\<rparr>"
    by blast
  from ok have nl: "\<not> isl ?ok"
    by (metis sum.disc(2))
  from A B nl show ?thesis
    using ok by (simp add: l2 n)
qed

end
